(* ===== verification/Cave_Prelude.thy ===== *)
theory Cave_Prelude
  imports Complex_Main "HOL-Library.Word"
begin

text \<open>
  Shared vocabulary of the cave generator development: the types that name the
  model's data (a grid of cells as a list of rows, coordinates, the Rust machine
  integers the source uses), the collection \<open>grid_simps\<close> of rewrite rules on
  grids that the component proofs share, and generic lemmas on nested list
  updates, folds over index ranges and 8-bit counters.
\<close>

section \<open>Types of the model\<close>

text \<open>
  \<^verbatim>\<open>type Grid = [[bool; GRID_SIZE]; GRID_SIZE]\<close> is a list of rows, each a
  list of cells; \<open>True\<close> is a wall, \<open>False\<close> open space. A cell is read as
  \<open>g ! y ! x\<close> for \<^verbatim>\<open>grid[y][x]\<close>.
\<close>

type_synonym grid = "bool list list"
type_synonym coord = "nat \<times> nat"
type_synonym u8 = "8 word"
type_synonym u32 = "32 word"
type_synonym u64 = "64 word"

text \<open>
  An \<^verbatim>\<open>f64\<close>: a finite value (the real it denotes; the values the program
  produces are doubles, see \<open>Cave_Float\<close>), an infinity or NaN.
\<close>

datatype f64 = F64 real | F64_inf | F64_neg_inf | F64_nan

named_theorems grid_simps "rewrite rules on grids shared by the component proofs"

section \<open>Writing one cell\<close>

text \<open>\<^verbatim>\<open>g[y][x] = v\<close> on a Rust array of arrays.\<close>

definition grid_set :: "grid \<Rightarrow> nat \<Rightarrow> nat \<Rightarrow> bool \<Rightarrow> grid" where
  "grid_set g y x v = g[y := (g ! y)[x := v]]"

lemma length_grid_set [simp, grid_simps]: "length (grid_set g y x v) = length g"
  by (simp add: grid_set_def)

lemma grid_set_row_length [grid_simps]:
  "i < length g \<Longrightarrow> length (grid_set g y x v ! i) = length (g ! i)"
  by (cases "i = y") (simp_all add: grid_set_def)

lemma grid_set_nth [grid_simps]:
  assumes "i < length g"
  shows "grid_set g y x v ! i ! j =
    (if i = y \<and> j = x \<and> x < length (g ! y) then v else g ! i ! j)"
  using assms by (cases "i = y") (auto simp add: grid_set_def nth_list_update list_update_beyond)

section \<open>Folds over an index range\<close>

text \<open>
  A loop \<^verbatim>\<open>for i in 0..n\<close> that only writes position \<open>i\<close> of the state is a
  \<open>fold\<close> over \<open>[0..<n]\<close>; a position outside the range is never written and a
  position inside is written exactly once, by the iteration of that index.
\<close>

lemma fold_upd_outside:
  assumes "\<And>i s. i \<noteq> k \<Longrightarrow> P (f i s) = P s"
    and "k \<notin> set ks"
  shows "P (fold f ks s) = P s"
  using assms(2) by (induction ks arbitrary: s) (auto simp: assms(1))

lemma fold_upd_inside:
  assumes "\<And>i s. i \<noteq> k \<Longrightarrow> P (f i s) = P s"
    and "\<And>s. P (f k s) = v"
    and "distinct ks" and "k \<in> set ks"
  shows "P (fold f ks s) = v"
  using assms(3,4)
proof (induction ks arbitrary: s)
  case Nil
  then show ?case by simp
next
  case (Cons i ks)
  show ?case
  proof (cases "i = k")
    case True
    with Cons.prems have "k \<notin> set ks" by simp
    then have "P (fold f ks (f k s)) = P (f k s)"
      using fold_upd_outside [where P = P and f = f and k = k] assms(1) by blast
    with True assms(2) show ?thesis by simp
  next
    case False
    with Cons.prems Cons.IH show ?thesis by simp
  qed
qed

lemma fold_preserve:
  "(\<And>i s. P s \<Longrightarrow> P (f i s)) \<Longrightarrow> P s \<Longrightarrow> P (fold f ks s)"
  by (induction ks arbitrary: s) simp_all

text \<open>
  A loop \<^verbatim>\<open>for x in 0..n { g[y][x] = h(x) }\<close> over a row of length at least
  \<open>n\<close> rewrites the first \<open>n\<close> cells of row \<open>y\<close> and keeps the others.
\<close>

lemma fold_grid_set_row:
  assumes "n \<le> length (gu ! y)" and "y < length gu"
  shows "fold (\<lambda>x gu. grid_set gu y x (h x)) [0..<n] gu = gu[y := map h [0..<n] @ drop n (gu ! y)]"
  using assms(1)
proof (induction n)
  case 0
  show ?case by simp
next
  case (Suc n)
  then have n: "n < length (gu ! y)" by simp
  have "(map h [0..<n] @ drop n (gu ! y))[n := h n] = map h [0..<Suc n] @ drop (Suc n) (gu ! y)"
    using n by (simp add: list_update_append Cons_nth_drop_Suc [symmetric])
  with Suc n assms(2) show ?case
    by (simp add: grid_set_def)
qed

section \<open>Deterministic relations\<close>

text \<open>
  Two states reached from the same start by a deterministic step relation lie
  on one path: one of them reaches the other.
\<close>

lemma deterministic_rtranclp_chain:
  assumes det: "\<And>x y z. R x y \<Longrightarrow> R x z \<Longrightarrow> y = z"
    and "R\<^sup>*\<^sup>* a s" and "R\<^sup>*\<^sup>* a t"
  shows "R\<^sup>*\<^sup>* s t \<or> R\<^sup>*\<^sup>* t s"
  using assms(2)
proof (induction rule: rtranclp_induct)
  case base
  then show ?case using assms(3) by simp
next
  case (step s s')
  from step.IH show ?case
  proof
    assume "R\<^sup>*\<^sup>* s t"
    then show ?thesis
    proof (cases rule: converse_rtranclpE)
      case base
      with step.hyps(2) show ?thesis by auto
    next
      case (step s'')
      with det [OF \<open>R s s'\<close>] show ?thesis by auto
    qed
  next
    assume "R\<^sup>*\<^sup>* t s"
    then have "R\<^sup>*\<^sup>* t s'" using step.hyps(2) by (rule rtranclp.rtrancl_into_rtrancl)
    then show ?thesis by simp
  qed
qed

text \<open>A state with no successor reaches only itself.\<close>

lemma rtranclp_from_final:
  "R\<^sup>*\<^sup>* s t \<Longrightarrow> (\<And>u. \<not> R s u) \<Longrightarrow> t = s"
  by (induction rule: converse_rtranclp_induct) auto

section \<open>8-bit counters\<close>

text \<open>
  \<^verbatim>\<open>count += 1\<close> on a \<^verbatim>\<open>u8\<close> wraps at 256 (and panics in a debug build);
  below 255 it is the successor of the count.
\<close>

lemma unat_u8_Suc [grid_simps]:
  "unat (c :: u8) < 255 \<Longrightarrow> unat (c + 1) = Suc (unat c)"
  by (simp add: unat_word_ariths)

end
