(* ===== verification/Cave_Float.thy ===== *)
theory Cave_Float
  imports Cave_Prelude "HOL-Library.Log_Nat"
begin

text \<open>
  Rust's \<^verbatim>\<open>f64\<close> values that the program reads: the literal
  \<^verbatim>\<open>DEFAULT_FILL = 0.7\<close> (\<^verbatim>\<open>src/src/main.rs\<close>, line 14) and the result
  of \<^verbatim>\<open>str::parse::<f64>\<close> (line 145). Both denote the IEEE 754 binary64
  value nearest to the decimal written, ties to even; a value whose rounding
  reaches \<open>2^1024\<close> becomes an infinity. A finite double is \<open>m * 2^k\<close> with
  \<open>m < 2^53\<close> and \<open>-1074 \<le> k\<close>: the exponent of a normal value is
  \<open>k = e - 52\<close> for \<open>2^e \<le> x < 2^(e+1)\<close>, the subnormal ones share
  \<open>k = -1074\<close>. \<open>f64_of_ratio neg n d\<close> is that rounding of
  \<open>(-1)^neg * n / d\<close>, computed on naturals. The sign of a zero is not kept
  (\<open>-0.0\<close> is the real \<open>0\<close>). These definitions model the standard
  library, not code of the repository; the lemmas serve the evaluation of
  parsed and literal values (\<open>f64_of_ratio_nat\<close>: whole numbers up to
  \<open>2^53\<close> are exact).
\<close>

section \<open>Rounding a ratio to a double\<close>

text \<open>\<open>2^e \<le> n / d\<close>, decided on naturals.\<close>

definition ge_pow2 :: "nat \<Rightarrow> nat \<Rightarrow> int \<Rightarrow> bool" where
  "ge_pow2 n d e \<longleftrightarrow> (if 0 \<le> e then d * 2 ^ nat e \<le> n else d \<le> n * 2 ^ nat (- e))"

text \<open>The binary exponent \<open>\<lfloor>log2 (n / d)\<rfloor>\<close> from the bit lengths of \<open>n\<close> and \<open>d\<close>.\<close>

definition binexp :: "nat \<Rightarrow> nat \<Rightarrow> int" where
  "binexp n d =
     (let e0 = int (floorlog 2 n) - int (floorlog 2 d) in if ge_pow2 n d e0 then e0 else e0 - 1)"

text \<open>The integer nearest to \<open>n / (d * 2^k)\<close>, ties to even.\<close>

definition round_scaled :: "nat \<Rightarrow> nat \<Rightarrow> int \<Rightarrow> nat" where
  "round_scaled n d k =
     (let (num, den) = (if 0 \<le> k then (n, d * 2 ^ nat k) else (n * 2 ^ nat (- k), d));
          q = num div den; r = num mod den
      in if den < 2 * r \<or> (2 * r = den \<and> odd q) then Suc q else q)"

definition f64_of_ratio :: "bool \<Rightarrow> nat \<Rightarrow> nat \<Rightarrow> f64" where
  "f64_of_ratio neg n d =
     (if n = 0 then F64 0
      else let k = max (binexp n d - 52) (-1074); m = round_scaled n d k
           in if 0 \<le> k \<and> 2 ^ 1024 \<le> m * 2 ^ nat k then (if neg then F64_neg_inf else F64_inf)
              else F64 ((if neg then -1 else 1) * (real m * 2 powi k)))"

text \<open>A decimal \<open>m * 10^e\<close>, as a float literal or \<^verbatim>\<open>parse::<f64>\<close> writes it.\<close>

definition f64_of_decimal :: "bool \<Rightarrow> nat \<Rightarrow> int \<Rightarrow> f64" where
  "f64_of_decimal neg m e =
     (if 0 \<le> e then f64_of_ratio neg (m * 10 ^ nat e) 1 else f64_of_ratio neg m (10 ^ nat (- e)))"

section \<open>Lemmas\<close>

lemma powi_nonneg_nat: "0 \<le> k \<Longrightarrow> (2 :: real) powi k = 2 ^ nat k"
  by (simp add: power_int_def)

lemma powi_neg_nat: "k < 0 \<Longrightarrow> (2 :: real) powi k = 1 / 2 ^ nat (- k)"
  by (simp add: power_int_def field_simps)

lemma ge_pow2_iff:
  assumes "0 < d"
  shows "ge_pow2 n d e \<longleftrightarrow> 2 powi e \<le> real n / real d"
proof (cases "0 \<le> e")
  case True
  have "real d * 2 ^ nat e \<le> real n \<longleftrightarrow> d * 2 ^ nat e \<le> n"
    by (metis of_nat_le_iff of_nat_mult of_nat_numeral of_nat_power)
  with True assms show ?thesis
    by (simp add: ge_pow2_def powi_nonneg_nat pos_le_divide_eq mult.commute)
next
  case False
  have "real d \<le> real n * 2 ^ nat (- e) \<longleftrightarrow> d \<le> n * 2 ^ nat (- e)"
    by (metis of_nat_le_iff of_nat_mult of_nat_numeral of_nat_power)
  with False assms show ?thesis
    by (simp add: ge_pow2_def powi_neg_nat pos_le_divide_eq divide_le_eq)
qed

lemma floorlog2_bounds:
  assumes "0 < n"
  shows "(2 :: real) ^ (floorlog 2 n - 1) \<le> real n \<and> real n < 2 ^ floorlog 2 n \<and> 0 < floorlog 2 n"
proof -
  have "2 ^ (floorlog 2 n - 1) \<le> n \<and> n < 2 ^ floorlog 2 n"
    using floorlog_bounds [of n 2] assms by simp
  then have "(2 :: real) ^ (floorlog 2 n - 1) \<le> real n \<and> real n < 2 ^ floorlog 2 n"
    by (metis of_nat_le_iff of_nat_less_iff of_nat_numeral of_nat_power)
  moreover have "0 < floorlog 2 n" using assms by (simp add: floorlog_def)
  ultimately show ?thesis by blast
qed

lemma powi_diff_nat:
  "(2 :: real) powi (int a - int b) = 2 ^ a / 2 ^ b"
  by (simp add: power_int_diff)

lemma binexp_bounds:
  assumes "0 < n" and "0 < d"
  shows "2 powi binexp n d \<le> real n / real d \<and> real n / real d < 2 powi (binexp n d + 1)"
proof -
  define a where "a = floorlog 2 n"
  define b where "b = floorlog 2 d"
  have na: "(2 :: real) ^ (a - 1) \<le> real n" "real n < 2 ^ a" "0 < a"
    using floorlog2_bounds [OF assms(1)] by (simp_all add: a_def)
  have db: "(2 :: real) ^ (b - 1) \<le> real d" "real d < 2 ^ b" "0 < b"
    using floorlog2_bounds [OF assms(2)] by (simp_all add: b_def)
  have dpos: "(0 :: real) < real d" using assms(2) by simp
  have lo: "2 powi (int a - int b - 1) \<le> real n / real d"
  proof -
    have ex: "int a - int b - 1 = int (a - 1) - int b" using na(3) by simp
    have "2 powi (int a - int b - 1) = (2 :: real) ^ (a - 1) / 2 ^ b"
      unfolding ex by (rule powi_diff_nat)
    also have "\<dots> \<le> real n / 2 ^ b"
      by (rule divide_right_mono [OF na(1)]) simp
    also have "\<dots> \<le> real n / real d"
      by (rule divide_left_mono) (use db(2) dpos in simp_all)
    finally show ?thesis .
  qed
  have hi: "real n / real d < 2 powi (int a - int b + 1)"
  proof -
    have ex: "int a - int b + 1 = int a - int (b - 1)" using db(3) by simp
    have "real n / real d < 2 ^ a / real d"
      by (rule divide_strict_right_mono [OF na(2) dpos])
    also have "\<dots> \<le> 2 ^ a / 2 ^ (b - 1)"
      by (rule divide_left_mono [OF db(1)]) (use dpos in simp_all)
    also have "\<dots> = 2 powi (int a - int b + 1)"
      unfolding ex by (rule powi_diff_nat [symmetric])
    finally show ?thesis .
  qed
  have e: "binexp n d = (if ge_pow2 n d (int a - int b) then int a - int b else int a - int b - 1)"
    by (simp add: binexp_def a_def b_def)
  show ?thesis
  proof (cases "ge_pow2 n d (int a - int b)")
    case True
    with hi ge_pow2_iff [OF assms(2)] e show ?thesis by simp
  next
    case False
    then have "real n / real d < 2 powi (int a - int b - 1 + 1)"
      using ge_pow2_iff [OF assms(2)] by simp
    with lo False e show ?thesis by simp
  qed
qed

lemma round_scaled_parts:
  assumes "0 < d"
  obtains num den where "0 < den" "real num / real den = real n / (real d * 2 powi k)"
    "round_scaled n d k =
       (if den < 2 * (num mod den) \<or> (2 * (num mod den) = den \<and> odd (num div den))
        then Suc (num div den) else num div den)"
proof (cases "0 \<le> k")
  case True
  show ?thesis
    by (rule that [of "d * 2 ^ nat k" n]) (use True assms in \<open>simp_all add: round_scaled_def Let_def powi_nonneg_nat\<close>)
next
  case False
  show ?thesis
    by (rule that [of d "n * 2 ^ nat (- k)"])
      (use False assms in \<open>simp_all add: round_scaled_def Let_def powi_neg_nat field_simps\<close>)
qed

lemma round_scaled_exact:
  assumes "0 < d" and "real n / (real d * 2 powi k) = real M"
  shows "round_scaled n d k = M"
proof -
  obtain num den where den: "0 < den" and eq: "real num / real den = real n / (real d * 2 powi k)"
    and m: "round_scaled n d k =
       (if den < 2 * (num mod den) \<or> (2 * (num mod den) = den \<and> odd (num div den))
        then Suc (num div den) else num div den)"
    using round_scaled_parts [OF assms(1)] by blast
  have "real num = real (M * den)" using eq assms(2) den by (simp add: field_simps)
  then have "num = M * den" by (rule of_nat_eq_iff [THEN iffD1])
  with den m show ?thesis by simp
qed

lemma f64_of_ratio_nat:
  assumes "n \<le> 2 ^ 53"
  shows "f64_of_ratio neg n 1 = F64 ((if neg then -1 else 1) * real n)"
proof (cases "n = 0")
  case True
  then show ?thesis by (simp add: f64_of_ratio_def)
next
  case False
  then have n: "0 < n" by simp
  define e where "e = binexp n 1"
  have b: "2 powi e \<le> real n" "real n < 2 powi (e + 1)"
    using binexp_bounds [OF n, of 1] by (simp_all add: e_def)
  have n53: "real n \<le> (2 :: real) ^ 53"
    using assms by (metis of_nat_le_iff of_nat_numeral of_nat_power)
  have "(2 :: real) powi e \<le> 2 powi (int 53)"
    unfolding power_int_of_nat using b(1) n53 by linarith
  then have e53: "e \<le> 53" using power_int_le_imp_le_exp [of "2 :: real" e "int 53"] by simp
  have e0: "0 \<le> e"
  proof (rule ccontr)
    assume "\<not> 0 \<le> e"
    then have "(2 :: real) powi (e + 1) \<le> 2 powi 0" by (intro power_int_increasing) simp_all
    moreover have "(1 :: real) \<le> real n" using n by simp
    ultimately show False using b(2) by simp
  qed
  define k where "k = e - 52"
  have k: "max (binexp n 1 - 52) (-1074) = k" using e0 by (simp add: e_def k_def)
  obtain M where M: "real n / (real 1 * 2 powi k) = real M" "M * 2 ^ nat k = n \<or> (k < 0)"
  proof (cases "0 \<le> k")
    case True
    then have "k = 1 \<or> k = 0" using e53 by (auto simp: k_def)
    then show ?thesis
    proof
      assume k1: "k = 1"
      then have "(2 :: real) powi (int 53) \<le> real n" using b(1) by (simp add: k_def)
      then have "(2 :: real) ^ 53 \<le> real n" unfolding power_int_of_nat .
      then have "2 ^ 53 \<le> n" by (metis of_nat_le_iff of_nat_numeral of_nat_power)
      then have "n = 2 ^ 53" using assms by (rule antisym [rotated])
      then show ?thesis using k1 by (intro that [of "2 ^ 52"]) simp_all
    next
      assume "k = 0"
      then show ?thesis by (intro that [of n]) simp_all
    qed
  next
    case False
    then show ?thesis
      by (intro that [of "n * 2 ^ nat (- k)"]) (simp_all add: powi_neg_nat)
  qed
  have r: "round_scaled n 1 k = M" by (rule round_scaled_exact) (use M(1) in simp_all)
  have v: "real M * 2 powi k = real n"
    using M(1) by (simp add: field_simps)
  have ovf: "\<not> (0 \<le> k \<and> 2 ^ 1024 \<le> M * 2 ^ nat k)"
    using M(2) assms by auto
  show ?thesis
    unfolding f64_of_ratio_def Let_def k r using n v ovf by simp
qed

end
