(* ===== verification/Cave_Grid.thy ===== *)
theory Cave_Grid
  imports Cave_Float
begin

text \<open>
  The grid data model of \<^verbatim>\<open>src/src/main.rs\<close>: the build-time constants
  (lines 7--16), the all-open grid \<^verbatim>\<open>[[false; GRID_SIZE]; GRID_SIZE]\<close> the
  generator starts from, the shape invariant that the Rust array type enforces
  (exactly \<open>GRID_SIZE\<close> rows of \<open>GRID_SIZE\<close> cells), and the renderer
  \<^verbatim>\<open>print_grid\<close> (lines 19--42), whose printed text is returned as a string,
  with a decoder of that text and the proof that it recovers the grid. The grid
  size is a parameter \<open>sz\<close> of every operation; the program is the
  instance \<open>sz = GRID_SIZE\<close>.
\<close>

section \<open>Constants\<close>

definition GRID_SIZE :: nat where
  "GRID_SIZE = 50"

definition GRID_NEIGHBROURS_TO_LIVE :: u8 where
  "GRID_NEIGHBROURS_TO_LIVE = 5"

definition GRID_NEIGHBROURS_TO_BORN :: u8 where
  "GRID_NEIGHBROURS_TO_BORN = 5"

text \<open>The literal \<^verbatim>\<open>0.7\<close> denotes the double nearest to \<open>7 * 10^-1\<close>.\<close>

definition DEFAULT_FILL :: f64 where
  "DEFAULT_FILL = f64_of_decimal False 7 (-1)"

definition DEFAULT_EROSION_ITERATIONS :: u32 where
  "DEFAULT_EROSION_ITERATIONS = 6"

section \<open>Grids\<close>

text \<open>\<^verbatim>\<open>[[false; GRID_SIZE]; GRID_SIZE]\<close>, at size \<open>sz\<close>.\<close>

definition empty_grid :: "nat \<Rightarrow> grid" where
  "empty_grid sz = replicate sz (replicate sz False)"

text \<open>The all-wall grid, a test input of the erosion rule.\<close>

definition full_grid :: "nat \<Rightarrow> grid" where
  "full_grid sz = replicate sz (replicate sz True)"

text \<open>The shape that the type \<^verbatim>\<open>[[bool; GRID_SIZE]; GRID_SIZE]\<close> guarantees.\<close>

definition wf_grid :: "nat \<Rightarrow> grid \<Rightarrow> bool" where
  "wf_grid sz g \<longleftrightarrow> length g = sz \<and> list_all (\<lambda>row. length row = sz) g"

section \<open>Renderer\<close>

text \<open>
  \<^verbatim>\<open>struct UiTileState { blank: &str, wall: &str }\<close>. Strings are byte lists:
  the glyphs \<^verbatim>\<open>U+2591\<close> (light shade) and \<^verbatim>\<open>U+2588\<close> (full block) are the
  UTF-8 sequences \<open>E2 96 91\<close> and \<open>E2 96 88\<close>, each printed twice.
\<close>

record ui_tile_state =
  blank :: string
  wall :: string

definition UI_TILES_STATES :: ui_tile_state where
  "UI_TILES_STATES =
     \<lparr>blank = map char_of [226, 150, 145, 226, 150, 145 :: nat],
      wall = map char_of [226, 150, 136, 226, 150, 136 :: nat]\<rparr>"

text \<open>
  \<^verbatim>\<open>print_grid\<close>: for each row, the glyph of each tile, then a newline. It
  always uses the global \<^verbatim>\<open>UI_TILES_STATES\<close>.
\<close>

definition print_tile :: "bool \<Rightarrow> string" where
  "print_tile tile = (if tile then wall UI_TILES_STATES else blank UI_TILES_STATES)"

definition print_grid :: "grid \<Rightarrow> string" where
  "print_grid g = concat (map (\<lambda>line. concat (map print_tile line) @ ''\<newline>'') g)"

text \<open>
  Reading the printed text back: a newline ends a row, each glyph of
  \<open>UI_TILES_STATES\<close> (six bytes) is one tile. The decoder is the inverse the
  renderer's contract asks for (two distinct glyphs, one per cell, row-major, a
  newline after each row); \<open>row\<close> holds the tiles of the current row, last
  first.
\<close>

fun decode_rows :: "string \<Rightarrow> bool list \<Rightarrow> grid option" where
  "decode_rows [] row = (if row = [] then Some [] else None)"
| "decode_rows (c # cs) row =
     (if c = CHR ''\<newline>'' then map_option (Cons (rev row)) (decode_rows cs [])
      else if c # take 5 cs = wall UI_TILES_STATES then decode_rows (drop 5 cs) (True # row)
      else if c # take 5 cs = blank UI_TILES_STATES then decode_rows (drop 5 cs) (False # row)
      else None)"

definition decode_grid :: "string \<Rightarrow> grid option" where
  "decode_grid s = decode_rows s []"

section \<open>Facts\<close>

lemma wf_grid_iff [grid_simps]:
  "wf_grid sz g \<longleftrightarrow> length g = sz \<and> (\<forall>i < length g. length (g ! i) = sz)"
  by (auto simp add: wf_grid_def list_all_length)

lemma empty_grid_wf: "wf_grid sz (empty_grid sz)"
  by (simp add: wf_grid_def empty_grid_def list_all_iff)

lemma empty_grid_nth [grid_simps]:
  "i < sz \<Longrightarrow> j < sz \<Longrightarrow> empty_grid sz ! i ! j = False"
  by (simp add: empty_grid_def)

lemma length_empty_grid [simp, grid_simps]: "length (empty_grid sz) = sz"
  by (simp add: empty_grid_def)

lemma full_grid_nth [grid_simps]:
  "i < sz \<Longrightarrow> j < sz \<Longrightarrow> full_grid sz ! i ! j = True"
  by (simp add: full_grid_def)

lemma full_grid_wf: "wf_grid sz (full_grid sz)"
  by (simp add: wf_grid_def full_grid_def list_all_iff)

lemma wf_grid_set [grid_simps]: "wf_grid sz g \<Longrightarrow> wf_grid sz (grid_set g y x v)"
  by (simp add: wf_grid_iff grid_set_row_length)

lemma length_print_tile [simp]: "length (print_tile t) = 6"
  by (simp add: print_tile_def UI_TILES_STATES_def)

lemma length_print_grid:
  "wf_grid sz g \<Longrightarrow> length (print_grid g) = sz * (6 * sz + 1)"
proof -
  assume wf: "wf_grid sz g"
  have "length (print_grid g) = sum_list (map (\<lambda>line. 6 * length line + 1) g)"
    by (simp add: print_grid_def length_concat comp_def sum_list_triv mult.commute)
  also have "\<dots> = sum_list (map (\<lambda>line. 6 * sz + 1) g)"
    using wf by (intro arg_cong [where f = sum_list] map_cong) (auto simp: wf_grid_def list_all_iff)
  also have "\<dots> = sz * (6 * sz + 1)"
    using wf by (simp add: wf_grid_def sum_list_triv)
  finally show ?thesis .
qed


lemma glyph_lead_ne_newline: "char_of (226 :: nat) \<noteq> CHR ''\<newline>''"
  by code_simp

lemma print_tile_split: "\<exists>c cs. print_tile t = c # cs \<and> c \<noteq> CHR ''\<newline>'' \<and> length cs = 5"
  by (cases t) (simp_all add: print_tile_def UI_TILES_STATES_def glyph_lead_ne_newline)

lemma wall_ne_blank: "wall UI_TILES_STATES \<noteq> blank UI_TILES_STATES"
  by (simp add: UI_TILES_STATES_def)

lemma decode_rows_tile:
  "decode_rows (print_tile t @ s) row = decode_rows s (t # row)"
proof -
  obtain c cs where p: "print_tile t = c # cs" "c \<noteq> CHR ''\<newline>''" "length cs = 5"
    using print_tile_split by blast
  then have "c # take 5 (cs @ s) = print_tile t" "drop 5 (cs @ s) = s" by simp_all
  with p show ?thesis
    by (cases t) (auto simp: print_tile_def wall_ne_blank wall_ne_blank [symmetric])
qed

lemma decode_rows_tiles:
  "decode_rows (concat (map print_tile line) @ s) row = decode_rows s (rev line @ row)"
  by (induction line arbitrary: row) (simp_all add: decode_rows_tile)

section \<open>Properties\<close>

text \<open>
  C23. The renderer loses nothing: the text \<^verbatim>\<open>print_grid\<close> prints decodes
  back to the grid it was given, so distinct grids are printed differently.
\<close>

theorem decode_print_grid: "decode_grid (print_grid g) = Some g"
proof -
  have "decode_rows (print_grid g) [] = Some g"
    by (induction g) (simp_all add: print_grid_def decode_rows_tiles)
  then show ?thesis by (simp add: decode_grid_def)
qed

end
