(* ===== verification/Cave_Neighbours.thy ===== *)
theory Cave_Neighbours
  imports Cave_Grid
begin

text \<open>
  The neighbour counter \<^verbatim>\<open>neighbours\<close> of \<^verbatim>\<open>src/src/main.rs\<close> (lines
  91--126): the eight offsets \<^verbatim>\<open>relatives\<close>, one iteration of the loop over
  them (bounds check on the \<^verbatim>\<open>i32\<close> absolute coordinate, then a read of
  \<^verbatim>\<open>grid[absolute[0]][absolute[1]]\<close> and a \<^verbatim>\<open>u8\<close> increment), and the loop as a
  \<open>fold\<close>. The \<^verbatim>\<open>usize as i32\<close> casts are exact for coordinates below
  \<open>2^31\<close>, which \<open>GRID_SIZE = 50\<close> guarantees, so coordinates are \<open>int\<close>.

  The specification of the count is \<open>wall_count sz g r c\<close>: the number of
  walls \<open>g ! r' ! c'\<close> among the in-grid cells \<open>(r', c')\<close> adjacent to row
  \<open>r\<close>, column \<open>c\<close>. The main lemma, \<open>neighbours_wall_count\<close>, shows that
  the counter never wraps and that \<open>neighbours sz (x, y) g\<close> is exactly
  \<open>wall_count sz g x y\<close>: the count around row \<open>x\<close>, column \<open>y\<close>, since the
  code indexes the grid by \<^verbatim>\<open>[x][y]\<close>.
\<close>

section \<open>The counter\<close>

definition relatives :: "(int \<times> int) list" where
  "relatives = [(1, 0), (1, 1), (0, 1), (-1, 1), (-1, 0), (-1, -1), (0, -1), (1, -1)]"

text \<open>\<^verbatim>\<open>absolute[0] < 0 || absolute[0] >= GRID_SIZE || absolute[1] < 0 || ...\<close>\<close>

definition out_of_grid :: "nat \<Rightarrow> int \<times> int \<Rightarrow> bool" where
  "out_of_grid sz absolute \<longleftrightarrow>
     fst absolute < 0 \<or> fst absolute \<ge> int sz \<or> snd absolute < 0 \<or> snd absolute \<ge> int sz"

text \<open>One iteration of \<^verbatim>\<open>for relative in relatives\<close>.\<close>

definition neighbours_body :: "nat \<Rightarrow> coord \<Rightarrow> grid \<Rightarrow> int \<times> int \<Rightarrow> u8 \<Rightarrow> u8" where
  "neighbours_body sz tile_coord g relative neighbours_count =
     (let absolute = (int (fst tile_coord) + fst relative, int (snd tile_coord) + snd relative)
      in if out_of_grid sz absolute then neighbours_count
         else if g ! nat (fst absolute) ! nat (snd absolute) then neighbours_count + 1
         else neighbours_count)"

definition neighbours :: "nat \<Rightarrow> coord \<Rightarrow> grid \<Rightarrow> u8" where
  "neighbours sz tile_coord g = fold (neighbours_body sz tile_coord g) relatives 0"

section \<open>Specification of the count\<close>

text \<open>Cell \<open>(r', c')\<close> is one of the eight cells around \<open>(r, c)\<close>.\<close>

definition adjacent :: "nat \<times> nat \<Rightarrow> nat \<times> nat \<Rightarrow> bool" where
  "adjacent p q \<longleftrightarrow> q \<noteq> p \<and> fst q \<le> fst p + 1 \<and> fst p \<le> fst q + 1
     \<and> snd q \<le> snd p + 1 \<and> snd p \<le> snd q + 1"

definition grid_cells :: "nat \<Rightarrow> (nat \<times> nat) list" where
  "grid_cells sz = List.product [0..<sz] [0..<sz]"

definition wall_count :: "nat \<Rightarrow> grid \<Rightarrow> nat \<Rightarrow> nat \<Rightarrow> nat" where
  "wall_count sz g r c =
     length (filter (\<lambda>q. adjacent (r, c) q \<and> g ! fst q ! snd q) (grid_cells sz))"

section \<open>Proof vocabulary\<close>

text \<open>An offset whose cell is in the grid and a wall, and the cell it names.\<close>

definition rel_wall :: "nat \<Rightarrow> coord \<Rightarrow> grid \<Rightarrow> int \<times> int \<Rightarrow> bool" where
  "rel_wall sz tc g d \<longleftrightarrow>
     (let a = (int (fst tc) + fst d, int (snd tc) + snd d)
      in \<not> out_of_grid sz a \<and> g ! nat (fst a) ! nat (snd a))"

definition rel_cell :: "coord \<Rightarrow> int \<times> int \<Rightarrow> nat \<times> nat" where
  "rel_cell tc d = (nat (int (fst tc) + fst d), nat (int (snd tc) + snd d))"

text \<open>The number of offsets whose cell lies in the grid.\<close>

definition in_grid_count :: "nat \<Rightarrow> nat \<Rightarrow> nat \<Rightarrow> nat" where
  "in_grid_count sz x y =
     length (filter (\<lambda>d. \<not> out_of_grid sz (int x + fst d, int y + snd d)) relatives)"

section \<open>The loop counts the walls it sees\<close>

lemma neighbours_body_eq:
  "neighbours_body sz tc g d c = (if rel_wall sz tc g d then c + 1 else c)"
  by (simp add: neighbours_body_def rel_wall_def Let_def)

lemma unat_fold_neighbours_body:
  "unat c + length ds \<le> 255 \<Longrightarrow>
   unat (fold (neighbours_body sz tc g) ds c) = unat c + length (filter (rel_wall sz tc g) ds)"
proof (induction ds arbitrary: c)
  case Nil
  then show ?case by simp
next
  case (Cons d ds)
  then show ?case
    by (auto simp add: neighbours_body_eq unat_u8_Suc)
qed

lemma length_relatives [simp]: "length relatives = 8"
  by (simp add: relatives_def)

lemma distinct_relatives: "distinct relatives"
  by (simp add: relatives_def)

lemma unat_neighbours_filter:
  "unat (neighbours sz tc g) = length (filter (rel_wall sz tc g) relatives)"
  unfolding neighbours_def by (simp add: unat_fold_neighbours_body)

section \<open>The offsets are the adjacent cells\<close>

lemma relatives_iff:
  "d \<in> set relatives \<longleftrightarrow> fst d \<in> {-1, 0, 1} \<and> snd d \<in> {-1, 0, 1} \<and> d \<noteq> (0, 0)"
  by (cases d) (auto simp: relatives_def)

lemma int_diff_unit: "(int r - int x \<in> {-1, 0, 1}) \<longleftrightarrow> r \<le> x + 1 \<and> x \<le> r + 1"
  by auto

lemma adjacent_iff_relatives:
  "adjacent (x, y) (r, c) \<longleftrightarrow> (int r - int x, int c - int y) \<in> set relatives"
  by (simp only: relatives_iff fst_conv snd_conv int_diff_unit) (auto simp: adjacent_def)

section \<open>The count is the number of adjacent walls\<close>

lemma rel_wall_cell:
  assumes "rel_wall sz (x, y) g d"
  shows "int (fst (rel_cell (x, y) d)) = int x + fst d" "int (snd (rel_cell (x, y) d)) = int y + snd d"
    "fst (rel_cell (x, y) d) < sz" "snd (rel_cell (x, y) d) < sz"
    "g ! fst (rel_cell (x, y) d) ! snd (rel_cell (x, y) d)"
  using assms by (auto simp: rel_wall_def rel_cell_def out_of_grid_def Let_def)

lemma rel_cell_image:
  "rel_cell (x, y) ` set (filter (rel_wall sz (x, y) g) relatives) =
   set (filter (\<lambda>q. adjacent (x, y) q \<and> g ! fst q ! snd q) (grid_cells sz))"
proof (rule set_eqI, rule iffI)
  fix q assume "q \<in> rel_cell (x, y) ` set (filter (rel_wall sz (x, y) g) relatives)"
  then obtain d where d: "d \<in> set relatives" "rel_wall sz (x, y) g d" and q: "q = rel_cell (x, y) d"
    by auto
  have "(int (fst q) - int x, int (snd q) - int y) = d"
    using rel_wall_cell(1,2) [OF d(2)] q by (cases d) simp
  with d(1) have "adjacent (x, y) q"
    by (cases q) (simp add: adjacent_iff_relatives)
  with rel_wall_cell(3-5) [OF d(2)] q
  show "q \<in> set (filter (\<lambda>q. adjacent (x, y) q \<and> g ! fst q ! snd q) (grid_cells sz))"
    by (simp add: grid_cells_def mem_Times_iff)
next
  fix q assume q: "q \<in> set (filter (\<lambda>q. adjacent (x, y) q \<and> g ! fst q ! snd q) (grid_cells sz))"
  obtain r c where qrc: "q = (r, c)" by fastforce
  define d where "d = (int r - int x, int c - int y)"
  from q qrc have "d \<in> set relatives"
    by (simp add: d_def adjacent_iff_relatives)
  moreover from q qrc have "rel_wall sz (x, y) g d"
    by (auto simp: d_def rel_wall_def out_of_grid_def grid_cells_def)
  moreover have "rel_cell (x, y) d = q"
    by (simp add: d_def rel_cell_def qrc)
  ultimately show "q \<in> rel_cell (x, y) ` set (filter (rel_wall sz (x, y) g) relatives)"
    by force
qed

lemma inj_on_rel_cell: "inj_on (rel_cell (x, y)) (set (filter (rel_wall sz (x, y) g) relatives))"
proof (rule inj_onI)
  fix d e
  assume d: "d \<in> set (filter (rel_wall sz (x, y) g) relatives)"
    and e: "e \<in> set (filter (rel_wall sz (x, y) g) relatives)"
    and eq: "rel_cell (x, y) d = rel_cell (x, y) e"
  from d e have "rel_wall sz (x, y) g d" "rel_wall sz (x, y) g e" by auto
  with eq show "d = e"
    by (metis prod_eqI add_left_cancel rel_wall_cell(1,2))
qed

lemma distinct_grid_cells: "distinct (grid_cells sz)"
  by (simp add: grid_cells_def distinct_product)

lemma neighbours_wall_count:
  "unat (neighbours sz (x, y) g) = wall_count sz g x y"
proof -
  have "unat (neighbours sz (x, y) g) = card (set (filter (rel_wall sz (x, y) g) relatives))"
    by (simp only: unat_neighbours_filter distinct_card [OF distinct_filter [OF distinct_relatives]])
  also have "\<dots> = card (rel_cell (x, y) ` set (filter (rel_wall sz (x, y) g) relatives))"
    by (rule card_image [OF inj_on_rel_cell, symmetric])
  also have "\<dots> = wall_count sz g x y"
    by (simp only: rel_cell_image wall_count_def
        distinct_card [OF distinct_filter [OF distinct_grid_cells]])
  finally show ?thesis .
qed

section \<open>Bounds\<close>

lemma neighbours_le_in_grid_count:
  "unat (neighbours sz (x, y) g) \<le> in_grid_count sz x y"
proof -
  have "(\<lambda>d. \<not> out_of_grid sz (int x + fst d, int y + snd d) \<and> rel_wall sz (x, y) g d) =
        rel_wall sz (x, y) g"
    by (auto simp: rel_wall_def Let_def)
  then have "filter (rel_wall sz (x, y) g) relatives =
        filter (rel_wall sz (x, y) g) (filter (\<lambda>d. \<not> out_of_grid sz (int x + fst d, int y + snd d)) relatives)"
    by (simp add: filter_filter)
  then show ?thesis
    by (simp only: unat_neighbours_filter in_grid_count_def) (metis length_filter_le)
qed

lemma neighbours_full:
  "unat (neighbours sz (x, y) (full_grid sz)) = in_grid_count sz x y"
proof -
  have "rel_wall sz (x, y) (full_grid sz) = (\<lambda>d. \<not> out_of_grid sz (int x + fst d, int y + snd d))"
    by (auto simp: rel_wall_def full_grid_def out_of_grid_def Let_def)
  then show ?thesis
    by (simp add: unat_neighbours_filter in_grid_count_def)
qed

lemma neighbours_empty: "neighbours sz (x, y) (empty_grid sz) = 0"
proof -
  have "rel_wall sz (x, y) (empty_grid sz) = (\<lambda>d. False)"
    unfolding rel_wall_def Let_def
    by (rule ext) (auto simp: empty_grid_def out_of_grid_def nat_less_iff)
  then have "unat (neighbours sz (x, y) (empty_grid sz)) = 0"
    by (simp add: unat_neighbours_filter)
  then show ?thesis by (simp add: unat_0_iff)
qed

lemma in_grid_count_corner:
  "2 \<le> sz \<Longrightarrow> x \<in> {0, sz - 1} \<Longrightarrow> y \<in> {0, sz - 1} \<Longrightarrow> in_grid_count sz x y = 3"
  by (auto simp: in_grid_count_def relatives_def out_of_grid_def)

lemma in_grid_count_not_corner:
  "x < sz \<Longrightarrow> y < sz \<Longrightarrow> \<not> (x \<in> {0, sz - 1} \<and> y \<in> {0, sz - 1}) \<Longrightarrow>
   5 \<le> in_grid_count sz x y"
  by (auto simp: in_grid_count_def relatives_def out_of_grid_def)

lemma wall_count_card:
  "wall_count sz g r c = card {q \<in> set (grid_cells sz). adjacent (r, c) q \<and> g ! fst q ! snd q}"
  unfolding wall_count_def
  by (simp only: distinct_card [OF distinct_filter [OF distinct_grid_cells], symmetric] set_filter)

section \<open>Properties\<close>

text \<open>
  C2. The neighbour counter is exact and never wraps: the \<^verbatim>\<open>u8\<close> it returns
  for tile coordinate \<open>(x, y)\<close> is the number of wall cells \<open>g ! r ! c\<close> inside
  the grid that are adjacent to row \<open>x\<close>, column \<open>y\<close>; cells outside the grid
  count zero.
\<close>

theorem neighbours_exact:
  "unat (neighbours sz (x, y) g) =
   card {(r, c). r < sz \<and> c < sz \<and> adjacent (x, y) (r, c) \<and> g ! r ! c}"
proof -
  have "{q \<in> set (grid_cells sz). adjacent (x, y) q \<and> g ! fst q ! snd q} =
        {(r, c). r < sz \<and> c < sz \<and> adjacent (x, y) (r, c) \<and> g ! r ! c}"
    by (auto simp: grid_cells_def)
  then show ?thesis
    by (simp only: neighbours_wall_count wall_count_card)
qed

text \<open>
  C8. At the four corners of a grid of size at least 2 at most three neighbours
  are inside the grid, so the count there is at most 3, whatever the grid holds.
\<close>

theorem neighbours_corner_le_3:
  assumes "2 \<le> sz" and "x \<in> {0, sz - 1}" and "y \<in> {0, sz - 1}"
  shows "unat (neighbours sz (x, y) g) \<le> 3"
  using neighbours_le_in_grid_count [of sz x y g] in_grid_count_corner [OF assms] by simp

theorem neighbours_corner_le_3_witness:
  "2 \<le> GRID_SIZE \<and> (0::nat) \<in> {0, GRID_SIZE - 1} \<and> GRID_SIZE - 1 \<in> {0, GRID_SIZE - 1}
   \<and> unat (neighbours GRID_SIZE (0, GRID_SIZE - 1) (full_grid GRID_SIZE)) \<le> 3"
  using neighbours_corner_le_3 [of GRID_SIZE 0 "GRID_SIZE - 1" "full_grid GRID_SIZE"]
  by (simp add: GRID_SIZE_def)

end
