(* ===== verification/Cave_Erosion.thy ===== *)
theory Cave_Erosion
  imports Cave_Neighbours
begin

text \<open>
  One erosion pass of \<^verbatim>\<open>generator\<close> in \<^verbatim>\<open>src/src/main.rs\<close> (lines 67--80):
  a fresh all-open \<^verbatim>\<open>grid_updated\<close>, the loops \<^verbatim>\<open>for y in 0..grid.len()\<close>
  and \<^verbatim>\<open>for x in 0..line.len()\<close> as nested folds, each iteration writing
  \<^verbatim>\<open>grid_updated[y][x]\<close> from the three-way rule \<open>new_tile\<close>, which reads only
  the previous grid. \<open>erosion_step_ref\<close> is the same pass written as a map over
  the cells; \<open>erosion_rule\<close> and \<open>spec_step\<close> are the rule of the design
  (a wall survives with at least \<^verbatim>\<open>GRID_NEIGHBROURS_TO_LIVE\<close> wall neighbours, an
  open cell becomes a wall with more than \<^verbatim>\<open>GRID_NEIGHBROURS_TO_BORN\<close>), counted
  around the cell itself.

  The lemmas show that the pass keeps the grid's shape, that the loop computes
  the map (every cell is decided from the unmodified previous grid), that cell
  \<open>(y, x)\<close> follows the rule with the count around row \<open>x\<close>, column \<open>y\<close>, so
  that the pass is the design's step exactly on grids symmetric about the
  diagonal, and that on other grids it is not (\<open>cex_grid\<close>).
\<close>

section \<open>The erosion pass\<close>

text \<open>The body of the inner loop: the value written to \<^verbatim>\<open>grid_updated[y][x]\<close>.\<close>

definition new_tile :: "nat \<Rightarrow> grid \<Rightarrow> nat \<Rightarrow> nat \<Rightarrow> bool" where
  "new_tile sz grid y x =
     (if grid ! y ! x \<and> neighbours sz (x, y) grid < GRID_NEIGHBROURS_TO_LIVE then False
      else if \<not> grid ! y ! x \<and> neighbours sz (x, y) grid > GRID_NEIGHBROURS_TO_BORN then True
      else grid ! y ! x)"

text \<open>\<^verbatim>\<open>let line = grid[y]; for x in 0usize..line.len() { ... }\<close>\<close>

definition erosion_row :: "nat \<Rightarrow> grid \<Rightarrow> nat \<Rightarrow> grid \<Rightarrow> grid" where
  "erosion_row sz grid y grid_updated =
     (let line = grid ! y
      in fold (\<lambda>x gu. grid_set gu y x (new_tile sz grid y x)) [0..<length line] grid_updated)"

text \<open>
  \<^verbatim>\<open>let mut grid_updated = [[false; GRID_SIZE]; GRID_SIZE];
  for y in 0usize..grid.len() { ... }\<close>; the caller then replaces \<^verbatim>\<open>grid\<close>.
\<close>

definition erosion_step :: "nat \<Rightarrow> grid \<Rightarrow> grid" where
  "erosion_step sz grid = fold (erosion_row sz grid) [0..<length grid] (empty_grid sz)"

text \<open>The same pass as a map: each cell from the previous grid alone.\<close>

definition erosion_step_ref :: "nat \<Rightarrow> grid \<Rightarrow> grid" where
  "erosion_step_ref sz grid = map (\<lambda>y. map (new_tile sz grid y) [0..<sz]) [0..<sz]"

section \<open>The rule of the design\<close>

definition erosion_rule :: "bool \<Rightarrow> nat \<Rightarrow> bool" where
  "erosion_rule is_wall n =
     (if is_wall then unat GRID_NEIGHBROURS_TO_LIVE \<le> n else unat GRID_NEIGHBROURS_TO_BORN < n)"

text \<open>The design's step: cell \<open>(y, x)\<close> from the walls around row \<open>y\<close>, column \<open>x\<close>.\<close>

definition spec_step :: "nat \<Rightarrow> grid \<Rightarrow> grid" where
  "spec_step sz g =
     map (\<lambda>y. map (\<lambda>x. erosion_rule (g ! y ! x) (wall_count sz g y x)) [0..<sz]) [0..<sz]"

definition grid_symmetric :: "nat \<Rightarrow> grid \<Rightarrow> bool" where
  "grid_symmetric sz g \<longleftrightarrow> list_all (\<lambda>i. list_all (\<lambda>j. g ! i ! j = g ! j ! i) [0..<sz]) [0..<sz]"

text \<open>A 50 by 50 grid with walls in rows 0--2 of columns 0--1 and nowhere else.\<close>

definition cex_grid :: grid where
  "cex_grid = map (\<lambda>r. map (\<lambda>c. r \<le> 2 \<and> c \<le> 1) [0..<GRID_SIZE]) [0..<GRID_SIZE]"

section \<open>The loop computes the map\<close>

lemma erosion_row_full:
  assumes "y < length gu" and "length (gu ! y) = length (grid ! y)"
  shows "erosion_row sz grid y gu = gu[y := map (new_tile sz grid y) [0..<length (grid ! y)]]"
  using assms by (simp add: erosion_row_def fold_grid_set_row)

lemma fold_erosion_row:
  assumes "wf_grid sz grid" and "n \<le> sz"
  shows "fold (erosion_row sz grid) [0..<n] (empty_grid sz) =
    map (\<lambda>y. map (new_tile sz grid y) [0..<sz]) [0..<n] @ drop n (empty_grid sz)"
  using assms(2)
proof (induction n)
  case 0
  show ?case by simp
next
  case (Suc n)
  let ?S = "map (\<lambda>y. map (new_tile sz grid y) [0..<sz]) [0..<n] @ drop n (empty_grid sz)"
  from Suc.prems have n: "n < sz" by simp
  have len: "length (?S ! n) = length (grid ! n)"
    using assms(1) n by (simp add: nth_append wf_grid_iff empty_grid_def)
  have "erosion_row sz grid n ?S = ?S[n := map (new_tile sz grid n) [0..<sz]]"
    using n len assms(1) by (simp add: erosion_row_full wf_grid_iff)
  also have "\<dots> = map (\<lambda>y. map (new_tile sz grid y) [0..<sz]) [0..<Suc n] @ drop (Suc n) (empty_grid sz)"
  proof -
    have "sz - n = Suc (sz - Suc n)" using n by arith
    then show ?thesis by (simp add: list_update_append empty_grid_def)
  qed
  finally show ?case
    using Suc n by simp
qed

lemma erosion_step_map:
  "wf_grid sz grid \<Longrightarrow> erosion_step sz grid = map (\<lambda>y. map (new_tile sz grid y) [0..<sz]) [0..<sz]"
  using fold_erosion_row [of sz grid sz] by (simp add: erosion_step_def wf_grid_iff)

lemma erosion_step_nth:
  "wf_grid sz g \<Longrightarrow> y < sz \<Longrightarrow> x < sz \<Longrightarrow> erosion_step sz g ! y ! x = new_tile sz g y x"
  by (simp add: erosion_step_map)

lemma erosion_row_wf: "wf_grid sz gu \<Longrightarrow> wf_grid sz (erosion_row sz grid y gu)"
  unfolding erosion_row_def Let_def by (rule fold_preserve) (simp_all add: wf_grid_set)

section \<open>The pass follows the rule, around the transposed cell\<close>

lemma new_tile_rule:
  "new_tile sz g y x = erosion_rule (g ! y ! x) (wall_count sz g x y)"
  by (auto simp: new_tile_def erosion_rule_def word_less_nat_alt neighbours_wall_count
      GRID_NEIGHBROURS_TO_LIVE_def GRID_NEIGHBROURS_TO_BORN_def)

lemma grid_symmetric_iff:
  "grid_symmetric sz g \<longleftrightarrow> (\<forall>i < sz. \<forall>j < sz. g ! i ! j = g ! j ! i)"
  by (auto simp add: grid_symmetric_def list_all_iff)

lemma wall_count_swap:
  assumes "grid_symmetric sz g"
  shows "wall_count sz g x y = wall_count sz g y x"
proof -
  let ?A = "\<lambda>r c. {q \<in> set (grid_cells sz). adjacent (r, c) q \<and> g ! fst q ! snd q}"
  have "?A x y = prod.swap ` ?A y x"
    using assms
    by (auto simp: grid_symmetric_iff grid_cells_def adjacent_def image_iff mem_Times_iff)
  then have "card (?A x y) = card (?A y x)"
    by (simp add: card_image)
  then show ?thesis
    by (simp only: wall_count_card)
qed

lemma cex_grid_nth:
  "r < 50 \<Longrightarrow> c < 50 \<Longrightarrow> cex_grid ! r ! c = (r \<le> 2 \<and> c \<le> 1)"
  by (simp add: cex_grid_def GRID_SIZE_def)

lemma wf_cex_grid: "wf_grid GRID_SIZE cex_grid"
  by (simp add: cex_grid_def wf_grid_def list_all_iff)

lemma new_tile_empty:
  "y < sz \<Longrightarrow> x < sz \<Longrightarrow> new_tile sz (empty_grid sz) y x = False"
  by (simp add: new_tile_def neighbours_empty empty_grid_nth)

section \<open>Shape and fixed points\<close>

lemma erosion_step_wf: "wf_grid sz (erosion_step sz g)"
  unfolding erosion_step_def
  by (rule fold_preserve [where P = "wf_grid sz"]) (simp_all add: erosion_row_wf empty_grid_wf)

lemma erosion_step_empty: "erosion_step sz (empty_grid sz) = empty_grid sz"
proof -
  have "erosion_step sz (empty_grid sz) = map (\<lambda>y. map (\<lambda>x. False) [0..<sz]) [0..<sz]"
    by (simp add: erosion_step_map empty_grid_wf new_tile_empty cong: map_cong)
  then show ?thesis
    by (simp add: empty_grid_def map_replicate_const)
qed

section \<open>Properties\<close>

text \<open>
  C1. One erosion pass decides cell \<open>(y, x)\<close> of a well-formed grid by the
  design's rule from the cell's previous state and the number of walls adjacent
  to row \<open>x\<close>, column \<open>y\<close> of the previous grid: a wall stays a wall with at
  least 5 such walls, an open cell becomes a wall with more than 5.
\<close>

theorem erosion_step_cell:
  assumes "wf_grid sz g" and "y < sz" and "x < sz"
  shows "erosion_step sz g ! y ! x = erosion_rule (g ! y ! x) (wall_count sz g x y)"
  using assms by (simp add: erosion_step_nth new_tile_rule)

theorem erosion_step_cell_witness:
  "wf_grid GRID_SIZE cex_grid \<and> 1 < GRID_SIZE \<and> 0 < GRID_SIZE \<and>
   erosion_step GRID_SIZE cex_grid ! 1 ! 0 =
     erosion_rule (cex_grid ! 1 ! 0) (wall_count GRID_SIZE cex_grid 0 1)"
  using erosion_step_cell [OF wf_cex_grid, of 1 0] wf_cex_grid by (simp add: GRID_SIZE_def)

text \<open>
  C3. On a well-formed grid that is symmetric about its diagonal the erosion pass
  is exactly the design's synchronous step, in which every cell is decided by the
  walls around that cell.
\<close>

theorem erosion_step_refines_spec:
  assumes "wf_grid sz g" and "grid_symmetric sz g"
  shows "erosion_step sz g = spec_step sz g"
  using assms(1) wall_count_swap [OF assms(2)]
  by (simp add: erosion_step_map spec_step_def new_tile_rule)

theorem erosion_step_refines_spec_witness:
  "wf_grid 3 (full_grid 3) \<and> grid_symmetric 3 (full_grid 3) \<and>
   erosion_step 3 (full_grid 3) = spec_step 3 (full_grid 3)"
proof -
  have wf: "wf_grid 3 (full_grid 3)" by (rule full_grid_wf)
  have sym: "grid_symmetric 3 (full_grid 3)" by code_simp
  show ?thesis using erosion_step_refines_spec [OF wf sym] wf sym by simp
qed

text \<open>
  C4. On grids that are not symmetric the erosion pass differs from the design's
  step, because the code counts the neighbours of the transposed cell. A 50 by 50
  grid where this happens exists (\<open>cex_grid\<close>, at row 1, column 0).
\<close>

theorem erosion_step_transposed:
  "\<exists>g. wf_grid GRID_SIZE g \<and> erosion_step GRID_SIZE g \<noteq> spec_step GRID_SIZE g"
proof (intro exI conjI)
  show "wf_grid GRID_SIZE cex_grid" by (rule wf_cex_grid)
  have code: "unat (neighbours GRID_SIZE (0, 1) cex_grid) = 3"
    by (simp add: unat_neighbours_filter relatives_def rel_wall_def out_of_grid_def
        GRID_SIZE_def cex_grid_nth)
  have spec: "unat (neighbours GRID_SIZE (1, 0) cex_grid) = 5"
    by (simp add: unat_neighbours_filter relatives_def rel_wall_def out_of_grid_def
        GRID_SIZE_def cex_grid_nth)
  have "erosion_step GRID_SIZE cex_grid ! 1 ! 0 = False"
    using code wf_cex_grid
    by (simp add: erosion_step_nth new_tile_rule erosion_rule_def GRID_SIZE_def cex_grid_nth
        neighbours_wall_count [symmetric] GRID_NEIGHBROURS_TO_LIVE_def)
  moreover have "spec_step GRID_SIZE cex_grid ! 1 ! 0 = True"
    using spec
    by (simp add: spec_step_def erosion_rule_def GRID_SIZE_def cex_grid_nth
        neighbours_wall_count [symmetric] GRID_NEIGHBROURS_TO_LIVE_def)
  ultimately show "erosion_step GRID_SIZE cex_grid \<noteq> spec_step GRID_SIZE cex_grid"
    by auto
qed

text \<open>
  C5. The nested loops that write \<^verbatim>\<open>grid_updated[y][x]\<close> compute the same grid
  as deciding every cell independently from the previous grid: the update is
  synchronous, no cell sees a value written earlier in the same pass.
\<close>

theorem erosion_step_eq_ref:
  assumes "wf_grid sz g"
  shows "erosion_step sz g = erosion_step_ref sz g"
  using assms by (simp add: erosion_step_map erosion_step_ref_def)

theorem erosion_step_eq_ref_witness:
  "wf_grid GRID_SIZE cex_grid \<and> erosion_step GRID_SIZE cex_grid = erosion_step_ref GRID_SIZE cex_grid"
  using erosion_step_eq_ref [OF wf_cex_grid] wf_cex_grid by simp

text \<open>
  C7. On an all-wall grid of size at least 2 one pass opens exactly the four
  corners (3 wall neighbours, below the survival threshold 5); every other cell,
  with 5 or 8 wall neighbours, stays a wall.
\<close>

theorem erosion_step_full:
  assumes "2 \<le> sz" "y < sz" "x < sz"
  shows "erosion_step sz (full_grid sz) ! y ! x = (\<not> (x \<in> {0, sz - 1} \<and> y \<in> {0, sz - 1}))"
proof -
  have live: "neighbours sz (x, y) (full_grid sz) < GRID_NEIGHBROURS_TO_LIVE \<longleftrightarrow> in_grid_count sz x y < 5"
    by (simp add: word_less_nat_alt neighbours_full GRID_NEIGHBROURS_TO_LIVE_def)
  have "erosion_step sz (full_grid sz) ! y ! x = (\<not> in_grid_count sz x y < 5)"
    using assms by (simp add: erosion_step_nth full_grid_wf new_tile_def full_grid_nth live)
  also have "\<dots> = (\<not> (x \<in> {0, sz - 1} \<and> y \<in> {0, sz - 1}))"
  proof (cases "x \<in> {0, sz - 1} \<and> y \<in> {0, sz - 1}")
    case True
    with assms(1) show ?thesis by (simp add: in_grid_count_corner)
  next
    case False
    with assms(2,3) have "5 \<le> in_grid_count sz x y" by (intro in_grid_count_not_corner)
    with False show ?thesis by simp
  qed
  finally show ?thesis .
qed

theorem erosion_step_full_witness:
  "2 \<le> (3::nat) \<and> 1 < (3::nat) \<and> 0 < (3::nat) \<and>
   erosion_step 3 (full_grid 3) ! 1 ! 0 = (\<not> ((0::nat) \<in> {0, 3 - 1} \<and> (1::nat) \<in> {0, 3 - 1}))"
  using erosion_step_full [of 3 1 0] by simp

text \<open>
  The scenario of the design: on a 3 by 3 grid whose only wall is the centre,
  the centre erodes (no wall neighbours) and no open cell has enough wall
  neighbours to become a wall: the grid becomes all open.
\<close>

theorem erosion_step_centre_3:
  "erosion_step 3 [[False, False, False], [False, True, False], [False, False, False]] = empty_grid 3"
  by code_simp

end
