(* ===== verification/Cave_Generator.thy ===== *)
theory Cave_Generator
  imports Cave_Erosion
begin

text \<open>
  The generator \<^verbatim>\<open>generator\<close> of \<^verbatim>\<open>src/src/main.rs\<close> (lines 44--89) and the
  random source it calls. \<^verbatim>\<open>rand::rng()\<close> (line 46) is an explicit value: a
  stream of \<^verbatim>\<open>u64\<close> samples with a cursor. \<^verbatim>\<open>rng.random_bool(p)\<close> (line 55)
  follows the \<^verbatim>\<open>rand\<close> crate: \<^verbatim>\<open>Bernoulli::new(p)\<close> rejects \<open>p\<close> outside
  \<open>[0, 1]\<close> and \<^verbatim>\<open>random_bool\<close> then panics; \<open>p = 1\<close> is always true without
  drawing; otherwise one sample \<open>v\<close> is drawn and the result is
  \<open>v < \<lfloor>p * 2^64\<rfloor>\<close>. NaN and the infinities are rejected like any value
  outside \<open>[0, 1]\<close>. For a double \<open>p < 1\<close> the product \<^verbatim>\<open>p * SCALE\<close> is
  exact (a power-of-two scaling), so the threshold is \<open>\<lfloor>p * 2^64\<rfloor>\<close>. A panic is a value
  \<open>Inl\<close> of the result.

  What the generator prints is a list of \<open>out\<close> events: a \<^verbatim>\<open>println!\<close> line,
  or a call \<^verbatim>\<open>print_grid(&grid)\<close> of the renderer, which only observes the grid;
  \<open>stdout\<close> is the text they produce. The run returns the events printed and
  either the final grid or the panic.
\<close>

section \<open>The random source\<close>

record rng =
  samples :: "nat \<Rightarrow> u64"
  cursor :: nat

text \<open>
  A panic: \<^verbatim>\<open>random_bool\<close>'s on a rejected probability, or an
  \<^verbatim>\<open>.expect(msg)\<close> on an error.
\<close>

datatype panic = Probability_out_of_range f64 | Expect_failed string

definition next_u64 :: "rng \<Rightarrow> u64 \<times> rng" where
  "next_u64 r = (samples r (cursor r), r\<lparr>cursor := Suc (cursor r)\<rparr>)"

definition SCALE :: real where
  "SCALE = 2 ^ 64"

definition ALWAYS_TRUE :: u64 where
  "ALWAYS_TRUE = - 1"

text \<open>
  \<^verbatim>\<open>Bernoulli::new(p)\<close>: \<^verbatim>\<open>if !(0.0..1.0).contains(&p) { if p == 1.0 {
  ALWAYS_TRUE } else { Err } } else { (p * SCALE) as u64 }\<close>; NaN and the
  infinities are not contained in the range and differ from 1.
\<close>

definition bernoulli_new :: "f64 \<Rightarrow> u64 option" where
  "bernoulli_new p =
     (case p of
        F64 r \<Rightarrow>
          (if \<not> (0 \<le> r \<and> r < 1) then (if r = 1 then Some ALWAYS_TRUE else None)
           else Some (word_of_nat (nat \<lfloor>r * SCALE\<rfloor>)))
      | _ \<Rightarrow> None)"

text \<open>The probabilities \<^verbatim>\<open>random_bool\<close> accepts.\<close>

definition probability_ok :: "f64 \<Rightarrow> bool" where
  "probability_ok p \<longleftrightarrow> (case p of F64 r \<Rightarrow> 0 \<le> r \<and> r \<le> 1 | _ \<Rightarrow> False)"

definition bernoulli_sample :: "u64 \<Rightarrow> rng \<Rightarrow> bool \<times> rng" where
  "bernoulli_sample p_int r =
     (if p_int = ALWAYS_TRUE then (True, r)
      else let (v, r') = next_u64 r in (v < p_int, r'))"

definition random_bool :: "f64 \<Rightarrow> rng \<Rightarrow> panic + bool \<times> rng" where
  "random_bool p r =
     (case bernoulli_new p of
        None \<Rightarrow> Inl (Probability_out_of_range p)
      | Some p_int \<Rightarrow> Inr (bernoulli_sample p_int r))"

section \<open>Output\<close>

datatype out = Line string | Show_grid grid

definition out_text :: "out \<Rightarrow> string" where
  "out_text o' = (case o' of Line s \<Rightarrow> s @ ''\<newline>'' | Show_grid g \<Rightarrow> print_grid g)"

definition stdout :: "out list \<Rightarrow> string" where
  "stdout outs = concat (map out_text outs)"

text \<open>The number of lines of a printed text: its newline characters.\<close>

definition newlines :: "string \<Rightarrow> nat" where
  "newlines s = length (filter (\<lambda>c. c = CHR ''\<newline>'') s)"

definition shown_grids :: "out list \<Rightarrow> grid list" where
  "shown_grids outs = concat (map (\<lambda>o'. case o' of Show_grid g \<Rightarrow> [g] | Line _ \<Rightarrow> []) outs)"

fun show_nat :: "nat \<Rightarrow> string" where
  "show_nat n =
     (if n < 10 then [char_of (48 + n)] else show_nat (n div 10) @ [char_of (48 + n mod 10)])"

definition quote :: string where
  "quote = [char_of (39 :: nat)]"

section \<open>Initialisation\<close>

fun init_line :: "f64 \<Rightarrow> bool list \<Rightarrow> rng \<Rightarrow> panic + bool list \<times> rng" where
  "init_line p [] r = Inr ([], r)"
| "init_line p (tile # tiles) r =
     (case random_bool p r of
        Inl e \<Rightarrow> Inl e
      | Inr (b, r') \<Rightarrow>
          (case init_line p tiles r' of
             Inl e \<Rightarrow> Inl e
           | Inr (tiles', r'') \<Rightarrow> Inr ((if b then True else tile) # tiles', r'')))"

fun init_grid :: "f64 \<Rightarrow> grid \<Rightarrow> rng \<Rightarrow> panic + grid \<times> rng" where
  "init_grid p [] r = Inr ([], r)"
| "init_grid p (line # lines) r =
     (case init_line p line r of
        Inl e \<Rightarrow> Inl e
      | Inr (line', r') \<Rightarrow>
          (case init_grid p lines r' of
             Inl e \<Rightarrow> Inl e
           | Inr (lines', r'') \<Rightarrow> Inr (line' # lines', r'')))"

section \<open>The erosion loop\<close>

text \<open>\<^verbatim>\<open>println!("- Erosion, iteration {iteration}: ")\<close> (line 82).\<close>

definition erosion_line :: "nat \<Rightarrow> out" where
  "erosion_line iteration = Line (''- Erosion, iteration '' @ show_nat iteration @ '': '')"

fun erosion_loop :: "nat \<Rightarrow> nat \<Rightarrow> nat \<Rightarrow> grid \<Rightarrow> grid \<times> out list" where
  "erosion_loop sz iteration 0 grid = (grid, [])"
| "erosion_loop sz iteration (Suc n) grid =
     (let grid' = erosion_step sz grid;
          (g, outs) = erosion_loop sz (Suc iteration) n grid'
      in (g, erosion_line iteration # Show_grid grid' # outs))"

text \<open>The header printed at line 49, from the glyphs passed to the generator.\<close>

definition generator_header :: "ui_tile_state \<Rightarrow> out" where
  "generator_header ui_tiles_states =
     Line (''## Initialized grid with: air='' @ quote @ blank ui_tiles_states @ quote
           @ ''; wall='' @ quote @ wall ui_tiles_states @ quote @ ''.'')"

definition generator ::
  "nat \<Rightarrow> f64 \<Rightarrow> u32 \<Rightarrow> ui_tile_state \<Rightarrow> rng \<Rightarrow> out list \<times> (panic + grid)" where
  "generator sz probability_wall erosion_iteration ui_tiles_states r =
     (let header = generator_header ui_tiles_states
      in case init_grid probability_wall (empty_grid sz) r of
           Inl e \<Rightarrow> ([header], Inl e)
         | Inr (grid, r') \<Rightarrow>
             (let (grid', outs) = erosion_loop sz 1 (unat erosion_iteration) grid
              in (header # Line ''- First random generation: '' # Show_grid grid # outs, Inr grid')))"

text \<open>A source whose samples are all zero, used in the witnesses.\<close>

definition rng0 :: rng where
  "rng0 = \<lparr>samples = \<lambda>_. 0, cursor = 0\<rparr>"

section \<open>Lemmas\<close>

lemma shown_grids_append [simp]: "shown_grids (xs @ ys) = shown_grids xs @ shown_grids ys"
  by (simp add: shown_grids_def)

lemma shown_grids_Line [simp]: "shown_grids (Line s # xs) = shown_grids xs"
  by (simp add: shown_grids_def)

lemma shown_grids_Show [simp]: "shown_grids (Show_grid g # xs) = g # shown_grids xs"
  by (simp add: shown_grids_def)

lemma shown_grids_Nil [simp]: "shown_grids [] = []"
  by (simp add: shown_grids_def)

lemma shown_grids_erosion_line [simp]: "shown_grids (erosion_line i # xs) = shown_grids xs"
  by (simp add: erosion_line_def)

lemma shown_grids_generator_header [simp]: "shown_grids (generator_header ui # xs) = shown_grids xs"
  by (simp add: generator_header_def)

lemma random_bool_draw:
  "bernoulli_new p = Some P \<Longrightarrow> P \<noteq> ALWAYS_TRUE \<Longrightarrow>
   random_bool p r = Inr (samples r (cursor r) < P, r\<lparr>cursor := Suc (cursor r)\<rparr>)"
  by (simp add: random_bool_def bernoulli_sample_def next_u64_def)

lemma random_bool_always:
  "bernoulli_new p = Some ALWAYS_TRUE \<Longrightarrow> random_bool p r = Inr (True, r)"
  by (simp add: random_bool_def bernoulli_sample_def)

lemma random_bool_invalid:
  "\<not> probability_ok p \<Longrightarrow> random_bool p r = Inl (Probability_out_of_range p)"
  by (cases p) (auto simp add: random_bool_def bernoulli_new_def probability_ok_def)

lemma bernoulli_new_valid:
  "probability_ok p \<Longrightarrow> \<exists>P. bernoulli_new p = Some P"
  by (cases p) (auto simp add: bernoulli_new_def probability_ok_def)

lemma init_line_draw:
  assumes "bernoulli_new p = Some P" and "P \<noteq> ALWAYS_TRUE"
  shows "init_line p tiles r =
    Inr (map (\<lambda>i. samples r (cursor r + i) < P \<or> tiles ! i) [0..<length tiles],
         r\<lparr>cursor := cursor r + length tiles\<rparr>)"
proof (induction tiles arbitrary: r)
  case Nil
  then show ?case by simp
next
  case (Cons t ts)
  let ?r1 = "r\<lparr>cursor := Suc (cursor r)\<rparr>"
  have "map (\<lambda>i. samples r (cursor r + i) < P \<or> (t # ts) ! i) [0..<length (t # ts)] =
        (samples r (cursor r) < P \<or> t) #
        map (\<lambda>i. samples ?r1 (cursor ?r1 + i) < P \<or> ts ! i) [0..<length ts]"
    by (simp add: map_upt_Suc del: upt_Suc)
  with Cons.IH [of ?r1] show ?case
    by (simp add: random_bool_draw [OF assms])
qed

lemma init_grid_draw:
  assumes "bernoulli_new p = Some P" and "P \<noteq> ALWAYS_TRUE"
    and "list_all (\<lambda>line. length line = sz) g"
  shows "init_grid p g r =
    Inr (map (\<lambda>y. map (\<lambda>x. samples r (cursor r + y * sz + x) < P \<or> g ! y ! x) [0..<sz]) [0..<length g],
         r\<lparr>cursor := cursor r + length g * sz\<rparr>)"
  using assms(3)
proof (induction g arbitrary: r)
  case Nil
  then show ?case by simp
next
  case (Cons l ls)
  let ?r1 = "r\<lparr>cursor := cursor r + sz\<rparr>"
  from Cons.prems have l: "length l = sz" and ls: "list_all (\<lambda>line. length line = sz) ls" by simp_all
  have "map (\<lambda>y. map (\<lambda>x. samples r (cursor r + y * sz + x) < P \<or> (l # ls) ! y ! x) [0..<sz]) [0..<length (l # ls)] =
        map (\<lambda>x. samples r (cursor r + x) < P \<or> l ! x) [0..<sz] #
        map (\<lambda>y. map (\<lambda>x. samples ?r1 (cursor ?r1 + y * sz + x) < P \<or> ls ! y ! x) [0..<sz]) [0..<length ls]"
    by (simp add: map_upt_Suc add.assoc del: upt_Suc)
  with Cons.IH [OF ls, of ?r1] l show ?case
    by (simp add: init_line_draw [OF assms(1,2)] algebra_simps)
qed

lemma bernoulli_new_0: "bernoulli_new (F64 0) = Some 0"
  by (simp add: bernoulli_new_def)

lemma zero_ne_ALWAYS_TRUE: "(0 :: u64) \<noteq> ALWAYS_TRUE"
  by (simp add: ALWAYS_TRUE_def)

lemma bernoulli_new_1: "bernoulli_new (F64 1) = Some ALWAYS_TRUE"
  by (simp add: bernoulli_new_def)

lemma init_grid_always:
  assumes "bernoulli_new p = Some ALWAYS_TRUE"
  shows "init_grid p g r = Inr (map (map (\<lambda>_. True)) g, r)"
proof -
  have line: "init_line p l r' = Inr (map (\<lambda>_. True) l, r')" for l r'
    by (induction l) (simp_all add: random_bool_always [OF assms])
  show ?thesis by (induction g) (simp_all add: line)
qed

lemma init_grid_p0:
  "init_grid (F64 0) (empty_grid sz) r = Inr (empty_grid sz, r\<lparr>cursor := cursor r + sz * sz\<rparr>)"
proof -
  have m: "map (\<lambda>y. map (\<lambda>x. samples r (cursor r + y * sz + x) < (0 :: u64) \<or> empty_grid sz ! y ! x)
             [0..<sz]) [0..<sz] = empty_grid sz"
    by (simp add: list_eq_iff_nth_eq empty_grid_def)
  have "list_all (\<lambda>line. length line = sz) (empty_grid sz)"
    by (simp add: empty_grid_def list_all_iff)
  from init_grid_draw [OF bernoulli_new_0 zero_ne_ALWAYS_TRUE this, of r] m show ?thesis
    by simp
qed

lemma init_grid_rng0:
  "init_grid (F64 0) (empty_grid 3) rng0 = Inr (empty_grid 3, rng0\<lparr>cursor := 9\<rparr>)"
  by (simp add: init_grid_p0 rng0_def)

lemma erosion_loop_grid: "fst (erosion_loop sz i n g) = (erosion_step sz ^^ n) g"
  by (induction n arbitrary: i g) (simp_all add: Let_def split_beta funpow_Suc_right del: funpow.simps)

lemma erosion_loop_shown:
  "shown_grids (snd (erosion_loop sz i n g)) = map (\<lambda>j. (erosion_step sz ^^ Suc j) g) [0..<n]"
proof (induction n arbitrary: i g)
  case 0
  then show ?case by (simp add: shown_grids_def)
next
  case (Suc n)
  have "map (\<lambda>j. (erosion_step sz ^^ Suc j) g) [0..<Suc n] =
        erosion_step sz g # map (\<lambda>j. (erosion_step sz ^^ Suc j) (erosion_step sz g)) [0..<n]"
    by (simp add: map_upt_Suc funpow_Suc_right del: upt_Suc funpow.simps)
  with Suc.IH [of "Suc i" "erosion_step sz g"] show ?case
    by (simp add: Let_def split_beta)
qed

lemma random_bool_valid: "probability_ok p \<Longrightarrow> \<exists>b r'. random_bool p r = Inr (b, r')"
  by (cases p) (auto simp: random_bool_def bernoulli_new_def bernoulli_sample_def split_beta probability_ok_def)

lemma init_line_valid:
  assumes "probability_ok p"
  shows "\<exists>tiles' r'. init_line p tiles r = Inr (tiles', r') \<and> length tiles' = length tiles"
proof (induction tiles arbitrary: r)
  case Nil
  then show ?case by simp
next
  case (Cons t ts)
  obtain b r1 where b: "random_bool p r = Inr (b, r1)"
    using random_bool_valid [OF assms] by blast
  obtain ts' r2 where "init_line p ts r1 = Inr (ts', r2)" "length ts' = length ts"
    using Cons.IH [of r1] by blast
  with b show ?case by simp
qed

lemma init_grid_valid:
  assumes "probability_ok p"
  shows "\<exists>g' r'. init_grid p g r = Inr (g', r') \<and> list_all2 (\<lambda>a b. length a = length b) g' g"
proof (induction g arbitrary: r)
  case Nil
  then show ?case by simp
next
  case (Cons l ls)
  obtain l' r1 where l: "init_line p l r = Inr (l', r1)" "length l' = length l"
    using init_line_valid [OF assms] by blast
  obtain ls' r2 where "init_grid p ls r1 = Inr (ls', r2)" "list_all2 (\<lambda>a b. length a = length b) ls' ls"
    using Cons.IH [of r1] by blast
  with l show ?case by simp
qed

lemma list_all2_length_wf:
  "list_all2 (\<lambda>a b. length a = length b) g' g \<Longrightarrow> wf_grid sz g \<Longrightarrow> wf_grid sz g'"
  by (auto simp: wf_grid_iff list_all2_conv_all_nth)

lemma init_grid_wf:
  assumes "probability_ok p"
  shows "\<exists>g r'. init_grid p (empty_grid sz) r = Inr (g, r') \<and> wf_grid sz g"
  using init_grid_valid [OF assms, of "empty_grid sz" r] list_all2_length_wf empty_grid_wf by blast

lemma generator_ok:
  assumes "init_grid p (empty_grid sz) r = Inr (g0, r')"
  shows "generator sz p k ui r =
    (generator_header ui #
     Line ''- First random generation: '' # Show_grid g0 # snd (erosion_loop sz 1 (unat k) g0),
     Inr (fst (erosion_loop sz 1 (unat k) g0)))"
  using assms by (simp add: generator_def split_beta)

lemma init_grid_shape:
  "init_grid p g r = Inr (g', r') \<Longrightarrow> list_all2 (\<lambda>a b. length a = length b) g' g"
proof (induction g arbitrary: r g' r')
  case Nil
  then show ?case by simp
next
  case (Cons l ls)
  obtain l' r1 where l: "init_line p l r = Inr (l', r1)"
    using Cons.prems by (auto split: sum.splits)
  obtain ls' r2 where ls: "init_grid p ls r1 = Inr (ls', r2)" and g': "g' = l' # ls'"
    using Cons.prems l by (auto split: sum.splits)
  have "length l' = length l"
    using l by (induction l arbitrary: r l' r1) (auto split: sum.splits)
  with Cons.IH [OF ls] g' show ?case by simp
qed

lemma init_grid_empty_wf:
  "init_grid p (empty_grid sz) r = Inr (g0, r') \<Longrightarrow> wf_grid sz g0"
  using init_grid_shape list_all2_length_wf empty_grid_wf by blast

lemma funpow_erosion_step_wf:
  "wf_grid sz g \<Longrightarrow> wf_grid sz ((erosion_step sz ^^ j) g)"
  by (cases j) (simp_all add: erosion_step_wf)

lemma funpow_erosion_step_empty: "(erosion_step sz ^^ j) (empty_grid sz) = empty_grid sz"
  by (induction j) (simp_all add: erosion_step_empty)

lemma init_grid_invalid:
  "0 < sz \<Longrightarrow> \<not> probability_ok p \<Longrightarrow>
   init_grid p (empty_grid sz) r = Inl (Probability_out_of_range p)"
  by (cases sz) (simp_all add: empty_grid_def random_bool_invalid)

section \<open>Properties\<close>

text \<open>
  C6. With wall probability 0 the generator never panics and returns the all-open
  grid, for every number of erosion iterations.
\<close>

theorem generator_p0: "snd (generator sz (F64 0) k ui r) = Inr (empty_grid sz)"
  by (simp add: generator_ok [OF init_grid_p0] erosion_loop_grid funpow_erosion_step_empty)

text \<open>
  C9. Once the random initialisation has produced \<open>g0\<close>, the generator shows
  the renderer exactly \<open>erosion_iteration + 1\<close> grids, in order: \<open>g0\<close>, then the
  grid after each erosion pass.
\<close>

theorem generator_render_order:
  assumes "init_grid p (empty_grid sz) r = Inr (g0, r')"
  shows "shown_grids (fst (generator sz p k ui r)) =
    map (\<lambda>j. (erosion_step sz ^^ j) g0) [0..<Suc (unat k)]"
proof -
  have "map (\<lambda>j. (erosion_step sz ^^ j) g0) [0..<Suc (unat k)] =
        g0 # map (\<lambda>j. (erosion_step sz ^^ Suc j) g0) [0..<unat k]"
    by (simp add: map_upt_Suc del: upt_Suc funpow.simps)
  then show ?thesis
    by (simp add: generator_ok [OF assms] erosion_loop_shown)
qed

theorem generator_render_order_witness:
  "init_grid (F64 0) (empty_grid 3) rng0 = Inr (empty_grid 3, rng0\<lparr>cursor := 9\<rparr>) \<and>
   shown_grids (fst (generator 3 (F64 0) 2 UI_TILES_STATES rng0)) =
     map (\<lambda>j. (erosion_step 3 ^^ j) (empty_grid 3)) [0..<Suc (unat (2 :: u32))]"
proof -
  have i: "init_grid (F64 0) (empty_grid 3) rng0 = Inr (empty_grid 3, rng0\<lparr>cursor := 9\<rparr>)"
    by (rule init_grid_rng0)
  show ?thesis using generator_render_order [OF i, of 2 UI_TILES_STATES] i by simp
qed

text \<open>
  C10. For every wall probability in \<open>[0, 1]\<close> the generator returns a grid:
  the random initialisation succeeds with a well-formed grid \<open>g0\<close>, and the
  result is \<open>g0\<close> after \<open>erosion_iteration\<close> erosion passes.
\<close>

theorem generator_result:
  assumes "probability_ok p"
  shows "\<exists>g0 r'. init_grid p (empty_grid sz) r = Inr (g0, r') \<and> wf_grid sz g0 \<and>
           snd (generator sz p k ui r) = Inr ((erosion_step sz ^^ unat k) g0)"
proof -
  obtain g0 r' where i: "init_grid p (empty_grid sz) r = Inr (g0, r')" and wf: "wf_grid sz g0"
    using init_grid_wf [OF assms] by blast
  then show ?thesis
    by (simp add: generator_ok [OF i] erosion_loop_grid)
qed

theorem generator_result_witness:
  "probability_ok (F64 0) \<and>
   (\<exists>g0 r'. init_grid (F64 0) (empty_grid 3) rng0 = Inr (g0, r') \<and> wf_grid 3 g0 \<and>
      snd (generator 3 (F64 0) 2 UI_TILES_STATES rng0) = Inr ((erosion_step 3 ^^ unat (2 :: u32)) g0))"
  using generator_result [of "F64 0" 3 rng0 2 UI_TILES_STATES] by (simp add: probability_ok_def)

text \<open>
  C11. A wall probability outside \<open>[0, 1]\<close> makes \<^verbatim>\<open>rng.random_bool\<close> panic
  at the first cell: the generator fails before it shows any grid.
\<close>

theorem generator_panics:
  assumes "0 < sz" and "\<not> probability_ok p"
  shows "snd (generator sz p k ui r) = Inl (Probability_out_of_range p) \<and>
         shown_grids (fst (generator sz p k ui r)) = []"
  by (simp add: generator_def init_grid_invalid [OF assms])

theorem generator_panics_witness:
  "0 < (50::nat) \<and> \<not> probability_ok (F64 (3 / 2)) \<and>
   snd (generator 50 (F64 (3 / 2)) 6 UI_TILES_STATES rng0) = Inl (Probability_out_of_range (F64 (3 / 2))) \<and>
   shown_grids (fst (generator 50 (F64 (3 / 2)) 6 UI_TILES_STATES rng0)) = []"
  using generator_panics [of 50 "F64 (3 / 2)" 6 UI_TILES_STATES rng0] by (simp add: probability_ok_def)

text \<open>
  C12. Initialisation is one independent trial per cell in row-major order: when
  the Bernoulli threshold is \<open>P\<close> (and not the always-true marker), cell
  \<open>(y, x)\<close> is a wall exactly when sample number \<open>y * sz + x\<close> after the cursor
  is below \<open>P\<close>, and exactly \<open>sz * sz\<close> samples are consumed.
\<close>

theorem init_grid_cells:
  assumes "bernoulli_new p = Some P" and "P \<noteq> ALWAYS_TRUE"
  shows "init_grid p (empty_grid sz) r =
    Inr (map (\<lambda>y. map (\<lambda>x. samples r (cursor r + y * sz + x) < P) [0..<sz]) [0..<sz],
         r\<lparr>cursor := cursor r + sz * sz\<rparr>)"
proof -
  have m: "map (\<lambda>y. map (\<lambda>x. samples r (cursor r + y * sz + x) < P \<or> empty_grid sz ! y ! x)
             [0..<sz]) [0..<sz] =
           map (\<lambda>y. map (\<lambda>x. samples r (cursor r + y * sz + x) < P) [0..<sz]) [0..<sz]"
    by (simp add: list_eq_iff_nth_eq empty_grid_def)
  have "list_all (\<lambda>line. length line = sz) (empty_grid sz)"
    by (simp add: empty_grid_def list_all_iff)
  from init_grid_draw [OF assms this, of r] m show ?thesis
    by simp
qed

theorem init_grid_cells_witness:
  "bernoulli_new (F64 0) = Some 0 \<and> (0 :: u64) \<noteq> ALWAYS_TRUE \<and>
   init_grid (F64 0) (empty_grid 2) rng0 =
     Inr (map (\<lambda>y. map (\<lambda>x. samples rng0 (cursor rng0 + y * 2 + x) < (0 :: u64)) [0..<2]) [0..<2],
          rng0\<lparr>cursor := cursor rng0 + 2 * 2\<rparr>)"
  using init_grid_cells [OF bernoulli_new_0 zero_ne_ALWAYS_TRUE, of 2 rng0]
  by (simp add: bernoulli_new_0 zero_ne_ALWAYS_TRUE)

text \<open>
  C13. With wall probability 1 initialisation draws no sample and fills every
  cell with a wall.
\<close>

theorem init_grid_p1: "init_grid (F64 1) (empty_grid sz) r = Inr (full_grid sz, r)"
  using init_grid_always [OF bernoulli_new_1, of "empty_grid sz" r]
  by (simp add: empty_grid_def full_grid_def map_replicate_const)

end
