(* ===== verification/Cave_Main.thy ===== *)
theory Cave_Main
  imports Cave_Generator
begin

text \<open>
  The console front end \<^verbatim>\<open>main\<close> of \<^verbatim>\<open>src/src/main.rs\<close> (lines 129--173).
  Standard input is a list of lines, each \<open>Input l\<close> (the bytes
  \<^verbatim>\<open>read_line\<close> appends, newline included) or \<open>Input_error\<close> (an I/O error,
  on which \<^verbatim>\<open>.expect\<close> panics); at end of input \<^verbatim>\<open>read_line\<close> appends
  nothing. \<^verbatim>\<open>str::trim\<close> removes the ASCII white space of
  \<^verbatim>\<open>char::is_whitespace\<close> (the non-ASCII white space characters are not
  modelled). \<^verbatim>\<open>parse::<u32>\<close> follows \<^verbatim>\<open>from_str_radix\<close>: an optional
  \<^verbatim>\<open>+\<close>, then at least one decimal digit, every prefix within \<^verbatim>\<open>u32::MAX\<close>.
  \<^verbatim>\<open>parse::<f64>\<close> follows the grammar documented for \<^verbatim>\<open>f64::from_str\<close>:
  an optional sign, then \<^verbatim>\<open>inf\<close>, \<^verbatim>\<open>infinity\<close> or \<^verbatim>\<open>nan\<close> in any case, or
  a decimal number with an optional exponent, whose value \<open>m * 10^e\<close> becomes
  the nearest double (\<open>f64_of_decimal\<close> of \<open>Cave_Float\<close>, infinity on
  overflow). Either parse failing selects the default, as the
  \<^verbatim>\<open>match\<close> does.
\<close>

section \<open>Standard input\<close>

datatype stdin_line = Input string | Input_error

text \<open>\<^verbatim>\<open>io::stdin().read_line(&mut buf).expect(msg)\<close>\<close>

definition read_line :: "string \<Rightarrow> string \<Rightarrow> stdin_line list \<Rightarrow> panic + string \<times> stdin_line list" where
  "read_line msg buf ins =
     (case ins of
        [] \<Rightarrow> Inr (buf, [])
      | Input l # rest \<Rightarrow> Inr (buf @ l, rest)
      | Input_error # _ \<Rightarrow> Inl (Expect_failed msg))"

section \<open>Parsing\<close>

definition is_whitespace :: "char \<Rightarrow> bool" where
  "is_whitespace c \<longleftrightarrow> of_char c \<in> {9, 10, 11, 12, 13, 32 :: nat}"

definition trim :: "string \<Rightarrow> string" where
  "trim s = rev (dropWhile is_whitespace (rev (dropWhile is_whitespace s)))"

definition digit_value :: "char \<Rightarrow> nat option" where
  "digit_value c =
     (let n = (of_char c :: nat) in if 48 \<le> n \<and> n \<le> 57 then Some (n - 48) else None)"

text \<open>The digit loop of \<^verbatim>\<open>from_str_radix\<close> with \<^verbatim>\<open>checked_mul\<close>/\<^verbatim>\<open>checked_add\<close>.\<close>

fun parse_digits :: "nat \<Rightarrow> string \<Rightarrow> nat option" where
  "parse_digits acc [] = Some acc"
| "parse_digits acc (c # cs) =
     (case digit_value c of
        None \<Rightarrow> None
      | Some d \<Rightarrow> (if acc * 10 + d > 4294967295 then None else parse_digits (acc * 10 + d) cs))"

definition parse_u32 :: "string \<Rightarrow> u32 option" where
  "parse_u32 s =
     (case s of
        [] \<Rightarrow> None
      | c # cs \<Rightarrow>
          if c = CHR ''+'' then (if cs = [] then None else map_option word_of_nat (parse_digits 0 cs))
          else map_option word_of_nat (parse_digits 0 s))"

definition to_lower :: "char \<Rightarrow> char" where
  "to_lower c = (let n = (of_char c :: nat) in if 65 \<le> n \<and> n \<le> 90 then char_of (n + 32) else c)"

definition is_digit :: "char \<Rightarrow> bool" where
  "is_digit c \<longleftrightarrow> digit_value c \<noteq> None"

definition digits_nat :: "string \<Rightarrow> nat" where
  "digits_nat ds = foldl (\<lambda>acc c. acc * 10 + ((of_char c :: nat) - 48)) 0 ds"

text \<open>\<^verbatim>\<open>Sign? ::= ('+' | '-')?\<close>: whether the value is negated, and the rest.\<close>

definition split_sign :: "string \<Rightarrow> bool \<times> string" where
  "split_sign s =
     (case s of
        [] \<Rightarrow> (False, [])
      | c # u \<Rightarrow> if c = CHR ''+'' then (False, u) else if c = CHR ''-'' then (True, u) else (False, s))"

text \<open>\<^verbatim>\<open>Exp ::= 'e' Sign? Digit+\<close>: the exponent of what follows the mantissa.\<close>

definition parse_exp :: "string \<Rightarrow> int option" where
  "parse_exp s =
     (case s of
        [] \<Rightarrow> Some 0
      | c # t \<Rightarrow>
          if to_lower c \<noteq> CHR ''e'' then None
          else
            (let (neg, ds) = split_sign t
             in if ds \<noteq> [] \<and> list_all is_digit ds
                then Some (if neg then - int (digits_nat ds) else int (digits_nat ds))
                else None))"

text \<open>
  \<^verbatim>\<open>Number ::= (Digit+ | Digit+ '.' Digit* | Digit* '.' Digit+) Exp?\<close>: the
  digits \<open>m\<close> and the decimal exponent \<open>e\<close> of the value \<open>m * 10^e\<close>.
\<close>

definition parse_number :: "string \<Rightarrow> (nat \<times> int) option" where
  "parse_number s =
     (let ip = takeWhile is_digit s; r1 = dropWhile is_digit s;
          (fp, r2) = (case r1 of
                        CHR ''.'' # t \<Rightarrow> (takeWhile is_digit t, dropWhile is_digit t)
                      | _ \<Rightarrow> ([], r1))
      in if ip = [] \<and> fp = [] then None
         else map_option (\<lambda>e. (digits_nat (ip @ fp), e - int (length fp))) (parse_exp r2))"

text \<open>
  \<^verbatim>\<open>Float ::= Sign? ('inf' | 'infinity' | 'nan' | Number)\<close>, case-insensitive;
  a number becomes the nearest double.
\<close>

definition parse_f64 :: "string \<Rightarrow> f64 option" where
  "parse_f64 s =
     (let (neg, t) = split_sign s;
          lt = map to_lower t
      in if lt = ''inf'' \<or> lt = ''infinity'' then Some (if neg then F64_neg_inf else F64_inf)
         else if lt = ''nan'' then Some F64_nan
         else map_option (\<lambda>(m, e). f64_of_decimal neg m e) (parse_number t))"

section \<open>The program\<close>

text \<open>Lines 132--159: the prompts, the two reads and the fallbacks.\<close>

definition read_config :: "stdin_line list \<Rightarrow> out list \<times> (panic + f64 \<times> u32 \<times> stdin_line list)" where
  "read_config ins =
     (let o1 = [Line ''# Linear cave finder and indexer.'',
                Line ''## Please enter config (choices) [default]... '',
                Line (''- Wall fill (]0; 1[) ['' @ ''0.7'' @ '']: '')]
      in case read_line ''(X) - Error reading the line.'' [] ins of
           Inl e \<Rightarrow> (o1, Inl e)
         | Inr (user_probability_wall, ins1) \<Rightarrow>
             (let p = (case parse_f64 (trim user_probability_wall) of
                         Some num \<Rightarrow> num
                       | None \<Rightarrow> DEFAULT_FILL);
                  o2 = o1 @ [Line (''- Erosion iterations (int > 0) ['' @
                                   show_nat (unat DEFAULT_EROSION_ITERATIONS) @ '']'')]
              in case read_line ''(X) - Error reading the line.'' [] ins1 of
                   Inl e \<Rightarrow> (o2, Inl e)
                 | Inr (user_erosion_iterations, ins2) \<Rightarrow>
                     (let k = (case parse_u32 (trim user_erosion_iterations) of
                                 Some num \<Rightarrow> num
                               | None \<Rightarrow> DEFAULT_EROSION_ITERATIONS)
                      in (o2, Inr (p, k, ins2)))))"

text \<open>Lines 162--173: the generator, then the pause before exit.\<close>

definition main :: "rng \<Rightarrow> stdin_line list \<Rightarrow> out list \<times> (panic + unit)" where
  "main r ins =
     (case read_config ins of
        (o1, Inl e) \<Rightarrow> (o1, Inl e)
      | (o1, Inr (p, k, ins2)) \<Rightarrow>
          (let o2 = o1 @ [Line ''# Input received; generating grid'']
           in case generator GRID_SIZE p k UI_TILES_STATES r of
                (o3, Inl e) \<Rightarrow> (o2 @ o3, Inl e)
              | (o3, Inr grid_main) \<Rightarrow>
                  (let o4 = o2 @ o3 @ [Line ''Enter to close...'']
                   in case read_line ''(X) - Error while quitting.'' [] ins2 of
                        Inl e \<Rightarrow> (o4, Inl e)
                      | Inr _ \<Rightarrow> (o4, Inr ()))))"

section \<open>Lemmas\<close>

declare show_nat.simps [simp del]

lemma show_nat_eq:
  "show_nat n = (if n < 10 then [char_of (48 + n)] else show_nat (n div 10) @ [char_of (48 + n mod 10)])"
  by (rule show_nat.simps)

lemma parse_digits_append:
  "parse_digits acc (xs @ ys) = Option.bind (parse_digits acc xs) (\<lambda>a. parse_digits a ys)"
  by (induction acc xs rule: parse_digits.induct) (simp_all split: option.splits)

lemma digit_char: "d < 10 \<Longrightarrow> digit_value (char_of (48 + d)) = Some d"
  by (simp add: digit_value_def of_char_of take_bit_nat_eq_self)

lemma show_nat_digits: "c \<in> set (show_nat n) \<Longrightarrow> \<exists>d::nat. d < 10 \<and> c = char_of (48 + d)"
proof (induction n rule: show_nat.induct)
  case (1 n)
  show ?case
  proof (cases "n < 10")
    case True
    with "1.prems" show ?thesis by (auto simp: show_nat_eq [of n])
  next
    case False
    with "1.prems" have "c \<in> set (show_nat (n div 10)) \<or> c = char_of (48 + n mod 10)"
      by (auto simp add: show_nat_eq [of n])
    then show ?thesis
    proof
      assume "c \<in> set (show_nat (n div 10))"
      with False "1.IH" show ?thesis by blast
    next
      assume "c = char_of (48 + n mod 10)"
      then show ?thesis by (intro exI [of _ "n mod 10"]) simp
    qed
  qed
qed

lemma parse_digits_show_nat:
  "n \<le> 4294967295 \<Longrightarrow> parse_digits 0 (show_nat n) = Some n"
proof (induction n rule: show_nat.induct)
  case (1 n)
  show ?case
  proof (cases "n < 10")
    case True
    then show ?thesis by (simp add: show_nat_eq [of n] digit_char)
  next
    case False
    with "1.prems" have "parse_digits 0 (show_nat (n div 10)) = Some (n div 10)"
      by (intro "1.IH") simp_all
    moreover have "n div 10 * 10 + n mod 10 = n" by simp
    ultimately show ?thesis
      using False "1.prems" by (simp add: show_nat_eq [of n] parse_digits_append digit_char)
  qed
qed

lemma show_nat_ne: "show_nat n \<noteq> []"
  by (simp add: show_nat_eq [of n])

lemma digit_not_whitespace: "(d :: nat) < 10 \<Longrightarrow> \<not> is_whitespace (char_of (48 + d))"
  by (simp add: is_whitespace_def of_char_of take_bit_nat_eq_self)

lemma show_nat_not_whitespace: "c \<in> set (show_nat n) \<Longrightarrow> \<not> is_whitespace c"
  using show_nat_digits digit_not_whitespace by blast

lemma trim_pad:
  assumes "list_all is_whitespace ws1" and "list_all is_whitespace ws2" and "s \<noteq> []"
    and "\<not> is_whitespace (hd s)" and "\<not> is_whitespace (last s)"
  shows "trim (ws1 @ s @ ws2) = s"
proof -
  have "dropWhile is_whitespace (ws1 @ s @ ws2) = s @ ws2"
    using assms(1,3,4) by (cases s) (simp_all add: dropWhile_append list_all_iff)
  moreover have "dropWhile is_whitespace (rev ws2 @ rev s) = rev s"
    using assms(2,3,5) by (cases "rev s") (simp_all add: dropWhile_append list_all_iff last_rev [symmetric])
  ultimately show ?thesis by (simp add: trim_def)
qed

lemma trim_show_nat:
  "list_all is_whitespace ws1 \<Longrightarrow> list_all is_whitespace ws2 \<Longrightarrow> trim (ws1 @ show_nat n @ ws2) = show_nat n"
  using show_nat_not_whitespace [OF hd_in_set [OF show_nat_ne]]
    show_nat_not_whitespace [OF last_in_set [OF show_nat_ne]] show_nat_ne
  by (intro trim_pad) simp_all

lemma parse_u32_show_nat_loop:
  "parse_u32 (show_nat n) = map_option word_of_nat (parse_digits 0 (show_nat n))"
proof -
  obtain c cs where cs: "show_nat n = c # cs" using show_nat_ne by (cases "show_nat n") auto
  then obtain d :: nat where d: "d < 10" "c = char_of (48 + d)"
    using show_nat_digits [of c n] by auto
  then have "(of_char c :: nat) = 48 + d"
    by (simp add: of_char_of take_bit_nat_eq_self)
  then have "c \<noteq> CHR ''+''"
    by auto
  with cs show ?thesis by (simp add: parse_u32_def)
qed

lemma parse_u32_show_nat:
  "n \<le> 4294967295 \<Longrightarrow> parse_u32 (show_nat n) = Some (word_of_nat n)"
  by (simp add: parse_u32_show_nat_loop parse_digits_show_nat)

lemma read_config_lines:
  "read_config (Input l1 # Input l2 # rest) =
     ([Line ''# Linear cave finder and indexer.'',
       Line ''## Please enter config (choices) [default]... '',
       Line (''- Wall fill (]0; 1[) ['' @ ''0.7'' @ '']: ''),
       Line (''- Erosion iterations (int > 0) ['' @ show_nat (unat DEFAULT_EROSION_ITERATIONS) @ '']'')],
      Inr (case parse_f64 (trim l1) of Some num \<Rightarrow> num | None \<Rightarrow> DEFAULT_FILL,
           case parse_u32 (trim l2) of Some num \<Rightarrow> num | None \<Rightarrow> DEFAULT_EROSION_ITERATIONS,
           rest))"
  by (simp add: read_config_def read_line_def Let_def)

lemma newlines_append [simp]: "newlines (xs @ ys) = newlines xs + newlines ys"
  by (simp add: newlines_def)

lemma newlines_Nil [simp]: "newlines [] = 0"
  by (simp add: newlines_def)

lemma newlines_Cons [simp]:
  "newlines (c # s) = (if c = CHR ''\<newline>'' then Suc (newlines s) else newlines s)"
  by (simp add: newlines_def)

lemma stdout_Cons [simp]: "stdout (o' # outs) = out_text o' @ stdout outs"
  by (simp add: stdout_def)

lemma stdout_append [simp]: "stdout (xs @ ys) = stdout xs @ stdout ys"
  by (simp add: stdout_def)

lemma stdout_Nil [simp]: "stdout [] = []"
  by (simp add: stdout_def)

lemma newlines_print_tiles: "newlines (concat (map print_tile line)) = 0"
proof -
  have "newlines (print_tile True) = 0" "newlines (print_tile False) = 0"
    by code_simp+
  then have "newlines (print_tile t) = 0" for t by (cases t) simp_all
  then show ?thesis by (induction line) simp_all
qed

lemma newlines_show_nat: "newlines (show_nat n) = 0"
proof -
  have "c \<noteq> CHR ''\<newline>''" if c: "c \<in> set (show_nat n)" for c
  proof -
    obtain d :: nat where "d < 10" "c = char_of (48 + d)" using show_nat_digits [OF c] by blast
    then have "(of_char c :: nat) = 48 + d" by (simp add: of_char_of take_bit_nat_eq_self)
    then show ?thesis by auto
  qed
  then show ?thesis by (simp add: newlines_def filter_empty_conv)
qed

lemma out_text_Show_grid [simp]: "out_text (Show_grid g) = print_grid g"
  by (simp add: out_text_def)

lemma newlines_Line [simp]: "newlines (out_text (Line s)) = Suc (newlines s)"
  by (simp add: out_text_def newlines_def)

lemma newlines_erosion_line [simp]: "newlines (out_text (erosion_line i)) = 1"
  by (simp add: erosion_line_def newlines_show_nat)

lemma newlines_header: "newlines (out_text (generator_header UI_TILES_STATES)) = 1"
  by code_simp

lemma erosion_loop_newlines:
  assumes "\<And>g. newlines (print_grid (erosion_step sz g)) = c"
  shows "newlines (stdout (snd (erosion_loop sz i n g))) = n * Suc c"
  by (induction n arbitrary: i g) (simp_all add: Let_def split_beta assms)

lemma digits_nat_snoc: "digits_nat (xs @ [c]) = digits_nat xs * 10 + (of_char c - 48)"
  by (simp add: digits_nat_def)

lemma digits_nat_show_nat: "digits_nat (show_nat n) = n"
proof (induction n rule: show_nat.induct)
  case (1 n)
  show ?case
  proof (cases "n < 10")
    case True
    then show ?thesis by (simp add: show_nat_eq [of n] digits_nat_def of_char_of take_bit_nat_eq_self)
  next
    case False
    with "1.IH" show ?thesis
      by (simp add: show_nat_eq [of n] digits_nat_snoc of_char_of take_bit_nat_eq_self)
  qed
qed

lemma show_nat_is_digit: "list_all is_digit (show_nat n)"
  using show_nat_digits digit_char by (fastforce simp: list_all_iff is_digit_def)

lemmas parse_f64_simps = parse_f64_def split_sign_def parse_number_def parse_exp_def to_lower_def
  is_digit_def digit_value_def digits_nat_def f64_of_decimal_def

lemmas f64_eval = f64_of_ratio_def binexp_def ge_pow2_def round_scaled_def compute_floorlog Let_def

lemma parse_line_0: "parse_f64 (trim ''0\<newline>'') = Some (F64 0)"
  by (simp add: trim_def is_whitespace_def parse_f64_simps f64_of_ratio_def)

lemma parse_line_2: "parse_u32 (trim ''2\<newline>'') = Some 2"
  by (simp add: trim_def is_whitespace_def parse_u32_def digit_value_def)

lemma probability_ok_0: "probability_ok (F64 0)"
  by (simp add: probability_ok_def)

lemma GRID_SIZE_pos: "0 < GRID_SIZE"
  by (simp add: GRID_SIZE_def)

lemma digit_value_Some: "digit_value c = Some d \<Longrightarrow> d = of_char c - 48"
  by (simp add: digit_value_def Let_def split: if_splits)

lemma foldl_digits_ge: "acc \<le> foldl (\<lambda>acc c. acc * 10 + ((of_char c :: nat) - 48)) acc ds"
proof (induction ds arbitrary: acc)
  case Nil
  then show ?case by simp
next
  case (Cons c cs)
  have "acc \<le> acc * 10 + ((of_char c :: nat) - 48)" by simp
  also have "\<dots> \<le> foldl (\<lambda>acc c. acc * 10 + ((of_char c :: nat) - 48)) (acc * 10 + (of_char c - 48)) cs"
    by (rule Cons.IH)
  finally show ?case by simp
qed

text \<open>
  The checked digit loop computes the plain decimal value: an overflow at some
  prefix is an overflow of the whole value, because the value only grows.
\<close>

lemma parse_digits_value:
  "acc \<le> 4294967295 \<Longrightarrow>
   parse_digits acc ds =
     (let v = foldl (\<lambda>acc c. acc * 10 + ((of_char c :: nat) - 48)) acc ds
      in if list_all is_digit ds \<and> v \<le> 4294967295 then Some v else None)"
proof (induction ds arbitrary: acc)
  case Nil
  then show ?case by simp
next
  case (Cons c cs)
  show ?case
  proof (cases "digit_value c")
    case None
    then show ?thesis by (simp add: is_digit_def)
  next
    case (Some d)
    then have d: "d = of_char c - 48" by (rule digit_value_Some)
    show ?thesis
    proof (cases "acc * 10 + d > 4294967295")
      case True
      then have "\<not> foldl (\<lambda>acc c. acc * 10 + ((of_char c :: nat) - 48)) (acc * 10 + d) cs \<le> 4294967295"
        using foldl_digits_ge [of "acc * 10 + d" cs] by linarith
      with True Some d show ?thesis by (simp add: is_digit_def Let_def)
    next
      case False
      with Cons.IH [of "acc * 10 + d"] Some d show ?thesis by (simp add: is_digit_def Let_def)
    qed
  qed
qed

lemma parse_digits_0:
  "parse_digits 0 ds = (if list_all is_digit ds \<and> digits_nat ds \<le> 4294967295 then Some (digits_nat ds) else None)"
  using parse_digits_value [of 0 ds] by (simp add: digits_nat_def Let_def)

lemma parse_u32_show_nat_overflow:
  "4294967295 < n \<Longrightarrow> parse_u32 (show_nat n) = None"
  by (simp add: parse_u32_show_nat_loop parse_digits_0 digits_nat_show_nat show_nat_is_digit
      del: parse_digits.simps)

lemma trim_blank: "list_all is_whitespace ws \<Longrightarrow> trim ws = []"
proof -
  assume "list_all is_whitespace ws"
  then have dw: "dropWhile is_whitespace ws = []" by (induction ws) simp_all
  show ?thesis unfolding trim_def dw by simp
qed

lemma main_shown_grids:
  assumes "read_config ins = (o1, Inr (p, k, ins2))"
  shows "shown_grids (fst (main r ins)) =
           shown_grids o1 @ shown_grids (fst (generator GRID_SIZE p k UI_TILES_STATES r))"
  using assms by (simp add: main_def Let_def split: prod.splits sum.splits)

section \<open>Properties\<close>

text \<open>
  C14. A decimal count within \<^verbatim>\<open>u32\<close> typed on the second console line (as
  \<open>show_nat\<close> prints it), with any ASCII white space around it (spaces, a tab,
  the \<^verbatim>\<open>\r\n\<close> of a Windows line end), reaches the generator unchanged:
  printing a count and parsing it back is the identity.
\<close>

theorem read_config_count_roundtrip:
  assumes "n \<le> 4294967295" and "list_all is_whitespace ws1" and "list_all is_whitespace ws2"
  shows "\<exists>p. snd (read_config (Input l # Input (ws1 @ show_nat n @ ws2) # rest)) = Inr (p, word_of_nat n, rest)"
  using assms by (simp add: read_config_lines trim_show_nat parse_u32_show_nat)

theorem read_config_count_roundtrip_witness:
  "(6 :: nat) \<le> 4294967295 \<and> list_all is_whitespace '' '' \<and> list_all is_whitespace ''\<newline>'' \<and>
   (\<exists>p. snd (read_config (Input ''x'' # Input ('' '' @ show_nat 6 @ ''\<newline>'') # [])) = Inr (p, word_of_nat 6, []))"
  using read_config_count_roundtrip [of 6 "'' ''" "''\<newline>''" "''x''" "[]"] by (simp add: is_whitespace_def)

text \<open>
  C15. Answering a prompt with nothing but white space, or not at all (end of
  input), selects its documented default: whatever white space the two lines
  hold, and at end of input after either prompt, the configuration is the
  wall probability \<open>DEFAULT_FILL\<close> and \<open>DEFAULT_EROSION_ITERATIONS\<close>, through
  the fallback arms of both \<^verbatim>\<open>match\<close>es.
\<close>

theorem read_config_defaults:
  assumes "list_all is_whitespace ws1" and "list_all is_whitespace ws2"
  shows "snd (read_config (Input ws1 # Input ws2 # rest)) =
           Inr (DEFAULT_FILL, DEFAULT_EROSION_ITERATIONS, rest) \<and>
         snd (read_config [Input ws1]) = Inr (DEFAULT_FILL, DEFAULT_EROSION_ITERATIONS, []) \<and>
         snd (read_config []) = Inr (DEFAULT_FILL, DEFAULT_EROSION_ITERATIONS, [])"
proof -
  have none: "parse_f64 [] = None" "parse_u32 [] = None" "trim [] = []"
    by (simp_all add: parse_f64_simps parse_u32_def trim_def)
  show ?thesis
    using trim_blank [OF assms(1)] trim_blank [OF assms(2)] none
    by (simp add: read_config_lines) (simp add: read_config_def read_line_def Let_def)
qed

theorem read_config_defaults_witness:
  "list_all is_whitespace ''\<newline>'' \<and> list_all is_whitespace '' \<newline>'' \<and>
   snd (read_config [Input ''\<newline>'', Input '' \<newline>'']) = Inr (DEFAULT_FILL, DEFAULT_EROSION_ITERATIONS, []) \<and>
   snd (read_config [Input ''\<newline>'']) = Inr (DEFAULT_FILL, DEFAULT_EROSION_ITERATIONS, []) \<and>
   snd (read_config []) = Inr (DEFAULT_FILL, DEFAULT_EROSION_ITERATIONS, [])"
proof -
  have w: "list_all is_whitespace ''\<newline>''" "list_all is_whitespace '' \<newline>''"
    by (simp_all add: is_whitespace_def)
  show ?thesis using read_config_defaults [OF w, of "[]"] w by simp
qed

text \<open>
  C16. A count beyond \<^verbatim>\<open>u32::MAX\<close> is not an error: typed as its decimal
  digits with any ASCII white space around it, the parse fails and
  \<open>DEFAULT_EROSION_ITERATIONS\<close> is used silently, whatever the first line
  held. This is the counterpart of C14: the count reaches the generator iff
  it fits in \<^verbatim>\<open>u32\<close>.
\<close>

theorem read_config_overflow:
  assumes "4294967295 < n" and "list_all is_whitespace ws1" and "list_all is_whitespace ws2"
  shows "\<exists>p. snd (read_config (Input l # Input (ws1 @ show_nat n @ ws2) # rest)) =
               Inr (p, DEFAULT_EROSION_ITERATIONS, rest)"
  using assms by (simp add: read_config_lines trim_show_nat parse_u32_show_nat_overflow)

theorem read_config_overflow_witness:
  "4294967295 < (4294967296 :: nat) \<and> list_all is_whitespace [] \<and> list_all is_whitespace ''\<newline>'' \<and>
   (\<exists>p. snd (read_config (Input ''0.5\<newline>'' # Input ([] @ show_nat 4294967296 @ ''\<newline>'') # [])) =
          Inr (p, DEFAULT_EROSION_ITERATIONS, []))"
  using read_config_overflow [of 4294967296 "[]" "''\<newline>''" "''0.5\<newline>''" "[]"]
  by (simp add: is_whitespace_def)

text \<open>
  C17. A first line that parses to a probability \<^verbatim>\<open>random_bool\<close> rejects
  (outside \<open>[0, 1]\<close>, an infinity or NaN) makes the program panic before any
  grid is rendered.
\<close>

theorem main_bad_probability:
  assumes "parse_f64 (trim l1) = Some p" and "\<not> probability_ok p"
  shows "snd (main r (Input l1 # Input l2 # rest)) = Inl (Probability_out_of_range p) \<and>
         shown_grids (fst (main r (Input l1 # Input l2 # rest))) = []"
proof -
  obtain o1 k where c: "read_config (Input l1 # Input l2 # rest) = (o1, Inr (p, k, rest))"
    and o1: "shown_grids o1 = []"
    using assms(1) by (simp add: read_config_lines)
  obtain o3 where g: "generator GRID_SIZE p k UI_TILES_STATES r = (o3, Inl (Probability_out_of_range p))"
    and o3: "shown_grids o3 = []"
    by (simp add: generator_def init_grid_invalid [OF GRID_SIZE_pos assms(2)])
  show ?thesis
    by (simp add: main_def c g o1 o3)
qed

theorem main_bad_probability_witness:
  "parse_f64 (trim ''nan\<newline>'') = Some F64_nan \<and> \<not> probability_ok F64_nan \<and>
   snd (main rng0 (Input ''nan\<newline>'' # Input ''6\<newline>'' # [])) = Inl (Probability_out_of_range F64_nan) \<and>
   shown_grids (fst (main rng0 (Input ''nan\<newline>'' # Input ''6\<newline>'' # []))) = []"
proof -
  have p: "parse_f64 (trim ''nan\<newline>'') = Some F64_nan"
    by (simp add: trim_def is_whitespace_def parse_f64_def split_sign_def to_lower_def)
  have bad: "\<not> probability_ok F64_nan" by (simp add: probability_ok_def)
  show ?thesis using main_bad_probability [OF p bad, of rng0 "''6\<newline>''" "[]"] p bad by simp
qed

text \<open>
  C18. With a valid probability and a parsed count \<open>k\<close>, the program runs to
  completion once the closing line is read, having rendered exactly \<open>k + 1\<close>
  grids.
\<close>

theorem main_completes:
  assumes "parse_f64 (trim l1) = Some p" and "probability_ok p" and "parse_u32 (trim l2) = Some k"
  shows "snd (main r (Input l1 # Input l2 # Input l3 # rest)) = Inr () \<and>
         length (shown_grids (fst (main r (Input l1 # Input l2 # Input l3 # rest)))) = Suc (unat k)"
proof -
  obtain o1 where c: "read_config (Input l1 # Input l2 # Input l3 # rest) = (o1, Inr (p, k, Input l3 # rest))"
    and o1: "shown_grids o1 = []"
    using assms(1,3) by (simp add: read_config_lines)
  obtain g0 r' where i: "init_grid p (empty_grid GRID_SIZE) r = Inr (g0, r')"
    using init_grid_wf [OF assms(2)] by blast
  obtain o3 g where g: "generator GRID_SIZE p k UI_TILES_STATES r = (o3, Inr g)"
    and o3: "length (shown_grids o3) = Suc (unat k)"
    using erosion_loop_shown [of GRID_SIZE 1 "unat k" g0] by (simp add: generator_ok [OF i])
  show ?thesis
    by (simp add: main_def c g o1 o3 read_line_def)
qed

theorem main_completes_witness:
  "parse_f64 (trim ''0\<newline>'') = Some (F64 0) \<and> probability_ok (F64 0) \<and>
   parse_u32 (trim ''2\<newline>'') = Some 2 \<and>
   snd (main rng0 [Input ''0\<newline>'', Input ''2\<newline>'', Input ''\<newline>'']) = Inr () \<and>
   length (shown_grids (fst (main rng0 [Input ''0\<newline>'', Input ''2\<newline>'', Input ''\<newline>'']))) =
     Suc (unat (2 :: u32))"
  using main_completes [OF parse_line_0 probability_ok_0 parse_line_2, of rng0 "''\<newline>''" "[]"]
    parse_line_0 probability_ok_0 parse_line_2 by simp

text \<open>
  C24. The whole standard output of a completed run: with a valid probability
  and a parsed count \<open>k\<close>, the program prints exactly
  \<open>8 + (k + 1) * GRID_SIZE + k\<close> lines: four prompts, the acknowledgement, the
  generator's header and first caption, one line per row of each of the
  \<open>k + 1\<close> grids, one caption per erosion pass, and the closing prompt.
\<close>

theorem main_output_lines:
  assumes "parse_f64 (trim l1) = Some p" and "probability_ok p" and "parse_u32 (trim l2) = Some k"
  shows "newlines (stdout (fst (main r (Input l1 # Input l2 # Input l3 # rest)))) =
           8 + Suc (unat k) * GRID_SIZE + unat k"
proof -
  have rows: "newlines (print_grid g) = length g" for g
    by (induction g) (simp_all add: print_grid_def newlines_print_tiles)
  obtain o1 where c: "read_config (Input l1 # Input l2 # Input l3 # rest) = (o1, Inr (p, k, Input l3 # rest))"
    and o1: "newlines (stdout o1) = 4"
    using assms(1,3) by (simp add: read_config_lines newlines_show_nat)
  obtain g0 r' where i: "init_grid p (empty_grid GRID_SIZE) r = Inr (g0, r')" and wf: "wf_grid GRID_SIZE g0"
    using init_grid_wf [OF assms(2)] by blast
  have loop: "newlines (stdout (snd (erosion_loop GRID_SIZE 1 (unat k) g0))) = unat k * Suc GRID_SIZE"
    using erosion_step_wf [of GRID_SIZE]
    by (intro erosion_loop_newlines) (simp add: rows wf_grid_def)
  obtain o3 g where g: "generator GRID_SIZE p k UI_TILES_STATES r = (o3, Inr g)"
    and o3: "newlines (stdout o3) = 2 + GRID_SIZE + unat k * Suc GRID_SIZE"
    using wf loop by (simp add: generator_def i split_beta newlines_header rows wf_grid_def)
  show ?thesis
    using o1 o3 by (simp add: main_def c g read_line_def)
qed

theorem main_output_lines_witness:
  "parse_f64 (trim ''0\<newline>'') = Some (F64 0) \<and> probability_ok (F64 0) \<and>
   parse_u32 (trim ''2\<newline>'') = Some 2 \<and>
   newlines (stdout (fst (main rng0 [Input ''0\<newline>'', Input ''2\<newline>'', Input ''\<newline>'']))) =
     8 + Suc (unat (2 :: u32)) * GRID_SIZE + unat (2 :: u32)"
  using main_output_lines [OF parse_line_0 probability_ok_0 parse_line_2, of rng0 "''\<newline>''" "[]"]
    parse_line_0 probability_ok_0 parse_line_2 by simp

text \<open>
  C25. An I/O error on either configuration read makes \<^verbatim>\<open>.expect\<close> panic
  with its message before the generator runs: no grid is rendered.
\<close>

theorem main_read_error:
  "snd (main r (Input_error # rest)) = Inl (Expect_failed ''(X) - Error reading the line.'') \<and>
   shown_grids (fst (main r (Input_error # rest))) = [] \<and>
   snd (main r (Input l1 # Input_error # rest)) = Inl (Expect_failed ''(X) - Error reading the line.'') \<and>
   shown_grids (fst (main r (Input l1 # Input_error # rest))) = []"
  by (simp add: main_def read_config_def read_line_def Let_def)

text \<open>
  C26. An I/O error on the final read, after a complete generation, still ends
  the program with a panic, although all \<open>k + 1\<close> grids have been rendered.
\<close>

theorem main_quit_error:
  assumes "parse_f64 (trim l1) = Some p" and "probability_ok p" and "parse_u32 (trim l2) = Some k"
  shows "snd (main r (Input l1 # Input l2 # Input_error # rest)) = Inl (Expect_failed ''(X) - Error while quitting.'') \<and>
         length (shown_grids (fst (main r (Input l1 # Input l2 # Input_error # rest)))) = Suc (unat k)"
proof -
  obtain o1 where c: "read_config (Input l1 # Input l2 # Input_error # rest) = (o1, Inr (p, k, Input_error # rest))"
    and o1: "shown_grids o1 = []"
    using assms(1,3) by (simp add: read_config_lines)
  obtain g0 r' where i: "init_grid p (empty_grid GRID_SIZE) r = Inr (g0, r')"
    using init_grid_wf [OF assms(2)] by blast
  obtain o3 g where g: "generator GRID_SIZE p k UI_TILES_STATES r = (o3, Inr g)"
    and o3: "length (shown_grids o3) = Suc (unat k)"
    using erosion_loop_shown [of GRID_SIZE 1 "unat k" g0] by (simp add: generator_ok [OF i])
  show ?thesis
    by (simp add: main_def c g o1 o3 read_line_def)
qed

theorem main_quit_error_witness:
  "parse_f64 (trim ''0\<newline>'') = Some (F64 0) \<and> probability_ok (F64 0) \<and>
   parse_u32 (trim ''2\<newline>'') = Some 2 \<and>
   snd (main rng0 [Input ''0\<newline>'', Input ''2\<newline>'', Input_error]) =
     Inl (Expect_failed ''(X) - Error while quitting.'') \<and>
   length (shown_grids (fst (main rng0 [Input ''0\<newline>'', Input ''2\<newline>'', Input_error]))) =
     Suc (unat (2 :: u32))"
  using main_quit_error [OF parse_line_0 probability_ok_0 parse_line_2, of rng0 "[]"]
    parse_line_0 probability_ok_0 parse_line_2 by simp

end
