(* ===== verification/Cave_Run.thy ===== *)
theory Cave_Run
  imports Cave_Generator
begin

text \<open>
  The run loop of \<^verbatim>\<open>generator\<close> (\<^verbatim>\<open>src/src/main.rs\<close>, lines 44--89) as the
  state machine of the design: \<open>Uninitialized\<close>, then \<open>Initialized\<close> by the
  random fill (lines 48--62), then \<open>Eroded (k + 1)\<close> from \<open>Eroded k\<close> by one
  erosion pass (lines 66--84), for \<open>k < erosion_iteration\<close>; a panic of
  \<^verbatim>\<open>random_bool\<close> ends the run in \<open>Failed\<close>. A state also holds the random
  source and what has been printed so far, so that each transition shows the
  renderer the grid it produced. The relation \<open>run_step\<close> has one rule per
  transition; \<open>run_reachable\<close> is the set of states a run from a given random
  source reaches. The invariant \<open>phase_inv\<close> holds in every reachable state
  (rule induction), and the function \<open>generator\<close> is the one complete run of
  the machine.
\<close>

section \<open>States and transitions\<close>

datatype run_phase = Uninitialized | Initialized grid | Eroded nat grid | Failed panic

record run_state =
  phase :: run_phase
  source :: rng
  printed :: "out list"

definition run_start :: "rng \<Rightarrow> run_state" where
  "run_start r = \<lparr>phase = Uninitialized, source = r, printed = []\<rparr>"

text \<open>The number of erosion passes done and the current grid, once there is one.\<close>

fun stage :: "run_phase \<Rightarrow> (nat \<times> grid) option" where
  "stage (Initialized g) = Some (0, g)"
| "stage (Eroded i g) = Some (i, g)"
| "stage Uninitialized = None"
| "stage (Failed e) = None"

inductive run_step :: "nat \<Rightarrow> f64 \<Rightarrow> u32 \<Rightarrow> ui_tile_state \<Rightarrow> run_state \<Rightarrow> run_state \<Rightarrow> bool"
  for sz p k ui where
  initialize:
    "phase s = Uninitialized \<Longrightarrow> init_grid p (empty_grid sz) (source s) = Inr (g, r') \<Longrightarrow>
     run_step sz p k ui s
       \<lparr>phase = Initialized g, source = r',
        printed = printed s @ [generator_header ui, Line ''- First random generation: '', Show_grid g]\<rparr>"
| initialize_panic:
    "phase s = Uninitialized \<Longrightarrow> init_grid p (empty_grid sz) (source s) = Inl e \<Longrightarrow>
     run_step sz p k ui s \<lparr>phase = Failed e, source = source s, printed = printed s @ [generator_header ui]\<rparr>"
| erode:
    "stage (phase s) = Some (i, g) \<Longrightarrow> i < unat k \<Longrightarrow>
     run_step sz p k ui s
       (s\<lparr>phase := Eroded (Suc i) (erosion_step sz g),
          printed := printed s @ [erosion_line (Suc i), Show_grid (erosion_step sz g)]\<rparr>)"

inductive run_reachable :: "nat \<Rightarrow> f64 \<Rightarrow> u32 \<Rightarrow> ui_tile_state \<Rightarrow> rng \<Rightarrow> run_state \<Rightarrow> bool"
  for sz p k ui r where
  start: "run_reachable sz p k ui r (run_start r)"
| step: "run_reachable sz p k ui r s \<Longrightarrow> run_step sz p k ui s t \<Longrightarrow> run_reachable sz p k ui r t"

text \<open>What a finished run returns: the panic, or the current grid.\<close>

fun run_result :: "run_phase \<Rightarrow> (panic + grid) option" where
  "run_result (Failed e) = Some (Inl e)"
| "run_result (Initialized g) = Some (Inr g)"
| "run_result (Eroded i g) = Some (Inr g)"
| "run_result Uninitialized = None"

text \<open>
  The invariant: nothing printed before initialisation; after a panic, the
  panic is the rejection of the probability and no grid has been shown; with a
  grid, \<open>i \<le> erosion_iteration\<close> passes done, the grid and every grid shown
  so far well formed, and the renderer shown \<open>i + 1\<close> grids, the
  last of them the current one.
\<close>

fun phase_inv :: "nat \<Rightarrow> f64 \<Rightarrow> u32 \<Rightarrow> run_phase \<Rightarrow> out list \<Rightarrow> bool" where
  "phase_inv sz p k Uninitialized outs \<longleftrightarrow> outs = []"
| "phase_inv sz p k (Failed e) outs \<longleftrightarrow> e = Probability_out_of_range p \<and> shown_grids outs = []"
| "phase_inv sz p k (Initialized g) outs \<longleftrightarrow> wf_grid sz g \<and> shown_grids outs = [g]"
| "phase_inv sz p k (Eroded i g) outs \<longleftrightarrow>
     0 < i \<and> i \<le> unat k \<and> wf_grid sz g \<and> list_all (wf_grid sz) (shown_grids outs) \<and>
     length (shown_grids outs) = Suc i \<and> last (shown_grids outs) = g"

section \<open>Lemmas\<close>

inductive_cases run_stepE: "run_step sz p k ui s t"

lemma stage_Some_iff:
  "stage ph = Some (i, g) \<longleftrightarrow> (ph = Initialized g \<and> i = 0) \<or> (ph = Eroded i g)"
  by (cases ph) auto

lemma init_line_Inl: "init_line p tiles r = Inl e \<Longrightarrow> e = Probability_out_of_range p"
  by (induction tiles arbitrary: r)
     (auto simp: random_bool_def split: sum.splits option.splits)

lemma init_grid_Inl: "init_grid p g r = Inl e \<Longrightarrow> e = Probability_out_of_range p"
  by (induction g arbitrary: r) (auto dest: init_line_Inl split: sum.splits)

lemma run_step_deterministic:
  "run_step sz p k ui s t \<Longrightarrow> run_step sz p k ui s u \<Longrightarrow> t = u"
  by (elim run_stepE) auto

lemma run_step_final:
  "stage (phase s) = Some (unat k, g) \<Longrightarrow> \<not> run_step sz p k ui s t"
  by (auto elim: run_stepE)

lemma run_step_failed: "phase s = Failed e \<Longrightarrow> \<not> run_step sz p k ui s t"
  by (auto elim: run_stepE)

lemma phase_inv_step:
  assumes "run_step sz p k ui s t" and "phase_inv sz p k (phase s) (printed s)"
  shows "phase_inv sz p k (phase t) (printed t)"
  using assms
proof (induction rule: run_step.induct)
  case (initialize s g r')
  then show ?case by (simp add: init_grid_empty_wf)
next
  case (initialize_panic s e)
  then show ?case by (simp add: init_grid_Inl)
next
  case (erode s i g)
  then show ?case by (auto simp: stage_Some_iff erosion_step_wf)
qed

lemma run_reachable_inv:
  "run_reachable sz p k ui r s \<Longrightarrow> phase_inv sz p k (phase s) (printed s)"
  by (induction rule: run_reachable.induct) (auto simp: run_start_def intro: phase_inv_step)

lemma run_erosions:
  assumes "stage (phase s) = Some (i, g)" and "i + n = unat k"
  shows "\<exists>t. (run_step sz p k ui ^^ n) s t \<and> stage (phase t) = Some (unat k, (erosion_step sz ^^ n) g) \<and>
             source t = source s \<and> printed t = printed s @ snd (erosion_loop sz (Suc i) n g)"
  using assms
proof (induction n arbitrary: s i g)
  case 0
  then show ?case by simp
next
  case (Suc n)
  let ?s1 = "s\<lparr>phase := Eroded (Suc i) (erosion_step sz g),
               printed := printed s @ [erosion_line (Suc i), Show_grid (erosion_step sz g)]\<rparr>"
  have step: "run_step sz p k ui s ?s1"
    using Suc.prems by (intro run_step.erode) simp_all
  obtain t where t: "(run_step sz p k ui ^^ n) ?s1 t"
      "stage (phase t) = Some (unat k, (erosion_step sz ^^ n) (erosion_step sz g))"
      "source t = source ?s1" "printed t = printed ?s1 @ snd (erosion_loop sz (Suc (Suc i)) n (erosion_step sz g))"
    using Suc.IH [of ?s1 "Suc i" "erosion_step sz g"] Suc.prems(2) by auto
  from step t(1) have "(run_step sz p k ui ^^ Suc n) s t" by (rule relpowp_Suc_I2)
  with t(2-4) show ?case
    by (auto simp: Let_def split_beta funpow_Suc_right simp del: funpow.simps)
qed

lemma run_reachable_rtranclp:
  "run_reachable sz p k ui r s \<longleftrightarrow> (run_step sz p k ui)\<^sup>*\<^sup>* (run_start r) s"
proof
  show "run_reachable sz p k ui r s \<Longrightarrow> (run_step sz p k ui)\<^sup>*\<^sup>* (run_start r) s"
    by (induction rule: run_reachable.induct) auto
  show "(run_step sz p k ui)\<^sup>*\<^sup>* (run_start r) s \<Longrightarrow> run_reachable sz p k ui r s"
    by (induction rule: rtranclp_induct) (auto intro: run_reachable.intros)
qed

lemma run_reachable_relpowp:
  "run_reachable sz p k ui r s \<Longrightarrow> (run_step sz p k ui ^^ n) s t \<Longrightarrow> run_reachable sz p k ui r t"
  by (simp add: run_reachable_rtranclp) (meson relpowp_imp_rtranclp rtranclp_trans)

lemma run_final_unique:
  assumes "run_reachable sz p k ui r s" and "run_reachable sz p k ui r t"
    and "\<And>u. \<not> run_step sz p k ui s u" and "\<And>u. \<not> run_step sz p k ui t u"
  shows "s = t"
proof -
  have "(run_step sz p k ui)\<^sup>*\<^sup>* s t \<or> (run_step sz p k ui)\<^sup>*\<^sup>* t s"
    using assms(1,2) by (intro deterministic_rtranclp_chain [OF run_step_deterministic])
      (simp_all add: run_reachable_rtranclp)
  then show ?thesis
    using rtranclp_from_final assms(3,4) by metis
qed

lemma run_result_stage: "stage ph = Some (i, g) \<Longrightarrow> run_result ph = Some (Inr g)"
  by (cases ph) auto

lemma run_initialize:
  assumes "phase s = Uninitialized" and "init_grid p (empty_grid sz) (source s) = Inr (g0, r')"
  shows "\<exists>t. run_step sz p k ui s t \<and> stage (phase t) = Some (0, g0) \<and> source t = r' \<and>
             printed t = printed s @ [generator_header ui, Line ''- First random generation: '', Show_grid g0]"
  using run_step.initialize [OF assms] by fastforce

lemma run_initialize_panic:
  assumes "phase s = Uninitialized" and "init_grid p (empty_grid sz) (source s) = Inl e"
  shows "\<exists>t. run_step sz p k ui s t \<and> phase t = Failed e \<and> printed t = printed s @ [generator_header ui]"
  using run_step.initialize_panic [OF assms] by fastforce

text \<open>The state after the random fill from the all-zero source, used by the witnesses.\<close>

lemma run_reachable_rng0:
  "run_reachable 2 (F64 0) 1 UI_TILES_STATES rng0
     \<lparr>phase = Initialized (empty_grid 2), source = rng0\<lparr>cursor := 4\<rparr>,
      printed = [generator_header UI_TILES_STATES, Line ''- First random generation: '',
                 Show_grid (empty_grid 2)]\<rparr>"
proof -
  have "init_grid (F64 0) (empty_grid 2) (source (run_start rng0)) = Inr (empty_grid 2, rng0\<lparr>cursor := 4\<rparr>)"
    using init_grid_p0 [of 2 rng0] by (simp add: run_start_def rng0_def)
  from run_step.initialize [OF _ this] show ?thesis
    by (intro run_reachable.step [OF run_reachable.start]) (simp_all add: run_start_def)
qed

section \<open>Properties\<close>

text \<open>
  C19. After every transition the renderer has observed the resulting grid: in
  every reachable state that has done \<open>i\<close> erosion passes on grid \<open>g\<close>,
  \<open>i \<le> erosion_iteration\<close>, exactly \<open>i + 1\<close> grids have been shown, and the
  last one shown is \<open>g\<close>.
\<close>

theorem run_reachable_rendered:
  assumes "run_reachable sz p k ui r s" and "stage (phase s) = Some (i, g)"
  shows "i \<le> unat k \<and> length (shown_grids (printed s)) = Suc i \<and> last (shown_grids (printed s)) = g"
  using run_reachable_inv [OF assms(1)] assms(2) by (auto simp: stage_Some_iff)

theorem run_reachable_rendered_witness:
  "run_reachable 2 (F64 0) 1 UI_TILES_STATES rng0
     \<lparr>phase = Initialized (empty_grid 2), source = rng0\<lparr>cursor := 4\<rparr>,
      printed = [generator_header UI_TILES_STATES, Line ''- First random generation: '',
                 Show_grid (empty_grid 2)]\<rparr> \<and>
   0 \<le> unat (1 :: u32) \<and> length [empty_grid 2] = Suc 0 \<and> last [empty_grid 2] = empty_grid 2"
  using run_reachable_rendered [OF run_reachable_rng0, of 0 "empty_grid 2"] run_reachable_rng0 by simp

text \<open>
  C20. The generator implements the run state machine: the machine has exactly
  one reachable state with no successor, and in it the text printed is what
  \<^verbatim>\<open>generator\<close> prints and the result is what \<^verbatim>\<open>generator\<close> returns.
\<close>

theorem generator_refines_run:
  "\<exists>s. run_reachable sz p k ui r s \<and> (\<forall>t. \<not> run_step sz p k ui s t) \<and>
       printed s = fst (generator sz p k ui r) \<and> run_result (phase s) = Some (snd (generator sz p k ui r)) \<and>
       (\<forall>s'. run_reachable sz p k ui r s' \<and> (\<forall>t. \<not> run_step sz p k ui s' t) \<longrightarrow> s' = s)"
proof (cases "init_grid p (empty_grid sz) r")
  case (Inl e)
  then obtain s where s: "run_step sz p k ui (run_start r) s" "phase s = Failed e"
      "printed s = [generator_header ui]"
    using run_initialize_panic [of "run_start r" p sz e k ui] by (auto simp: run_start_def)
  then have reach: "run_reachable sz p k ui r s" by (blast intro: run_reachable.intros)
  have fin: "\<forall>t. \<not> run_step sz p k ui s t" using s(2) run_step_failed by blast
  have out: "printed s = fst (generator sz p k ui r)" and res: "run_result (phase s) = Some (snd (generator sz p k ui r))"
    by (simp_all add: generator_def Inl s(2,3))
  have "\<forall>s'. run_reachable sz p k ui r s' \<and> (\<forall>t. \<not> run_step sz p k ui s' t) \<longrightarrow> s' = s"
    using run_final_unique [OF _ reach] fin by blast
  with reach fin out res show ?thesis by blast
next
  case (Inr a)
  then obtain g0 r' where i: "init_grid p (empty_grid sz) r = Inr (g0, r')" by (cases a) auto
  then obtain s1 where s1: "run_step sz p k ui (run_start r) s1" "stage (phase s1) = Some (0, g0)"
      "printed s1 = [generator_header ui, Line ''- First random generation: '', Show_grid g0]"
    using run_initialize [of "run_start r" p sz g0 r' k ui] by (auto simp: run_start_def)
  obtain t where t: "(run_step sz p k ui ^^ unat k) s1 t"
      "stage (phase t) = Some (unat k, (erosion_step sz ^^ unat k) g0)"
      "printed t = printed s1 @ snd (erosion_loop sz 1 (unat k) g0)"
    using run_erosions [OF s1(2), where n = "unat k" and sz = sz and p = p and ui = ui] by auto
  have reach: "run_reachable sz p k ui r t"
    using s1(1) t(1) by (blast intro: run_reachable.intros run_reachable_relpowp)
  have fin: "\<forall>u. \<not> run_step sz p k ui t u" using t(2) run_step_final by blast
  have gen: "generator sz p k ui r =
      (generator_header ui # Line ''- First random generation: '' # Show_grid g0 # snd (erosion_loop sz 1 (unat k) g0),
       Inr ((erosion_step sz ^^ unat k) g0))"
    by (simp add: generator_def i split_beta erosion_loop_grid del: funpow.simps)
  have out: "printed t = fst (generator sz p k ui r)" using t(3) s1(3) gen by simp
  have res: "run_result (phase t) = Some (snd (generator sz p k ui r))"
    using run_result_stage [OF t(2)] gen by simp
  have "\<forall>s'. run_reachable sz p k ui r s' \<and> (\<forall>u. \<not> run_step sz p k ui s' u) \<longrightarrow> s' = t"
    using run_final_unique [OF _ reach] fin by blast
  with reach fin out res show ?thesis by blast
qed

theorem generator_refines_run_witness:
  "\<exists>s. run_reachable 2 (F64 0) 1 UI_TILES_STATES rng0 s \<and> (\<forall>t. \<not> run_step 2 (F64 0) 1 UI_TILES_STATES s t) \<and>
       printed s = fst (generator 2 (F64 0) 1 UI_TILES_STATES rng0) \<and>
       run_result (phase s) = Some (snd (generator 2 (F64 0) 1 UI_TILES_STATES rng0)) \<and>
       (\<forall>s'. run_reachable 2 (F64 0) 1 UI_TILES_STATES rng0 s' \<and> (\<forall>t. \<not> run_step 2 (F64 0) 1 UI_TILES_STATES s' t) \<longrightarrow> s' = s)"
  by (rule generator_refines_run)

text \<open>
  C21. A run that fails has rejected the wall probability and has shown the
  renderer nothing: no reachable failed state has a grid on screen.
\<close>

theorem run_failed_safe:
  assumes "run_reachable sz p k ui r s" and "phase s = Failed e"
  shows "e = Probability_out_of_range p \<and> shown_grids (printed s) = []"
  using run_reachable_inv [OF assms(1)] assms(2) by simp

theorem run_failed_safe_witness:
  "run_reachable 1 (F64 (3 / 2)) 1 UI_TILES_STATES rng0
     \<lparr>phase = Failed (Probability_out_of_range (F64 (3 / 2))), source = rng0,
      printed = [generator_header UI_TILES_STATES]\<rparr> \<and>
   shown_grids [generator_header UI_TILES_STATES] = []"
proof -
  have "init_grid (F64 (3 / 2)) (empty_grid 1) (source (run_start rng0)) =
          Inl (Probability_out_of_range (F64 (3 / 2)))"
    by (simp add: run_start_def init_grid_invalid probability_ok_def)
  from run_step.initialize_panic [OF _ this] have r:
    "run_reachable 1 (F64 (3 / 2)) 1 UI_TILES_STATES rng0
       \<lparr>phase = Failed (Probability_out_of_range (F64 (3 / 2))), source = rng0,
        printed = [generator_header UI_TILES_STATES]\<rparr>"
    by (intro run_reachable.step [OF run_reachable.start]) (simp_all add: run_start_def)
  show ?thesis using run_failed_safe [OF r] r by simp
qed

text \<open>
  C22. Every run terminates: from every reachable state a state with no
  successor is reached in at most \<open>erosion_iteration + 1\<close> steps.
\<close>

theorem run_terminates:
  assumes "run_reachable sz p k ui r s"
  shows "\<exists>n t. n \<le> Suc (unat k) \<and> (run_step sz p k ui ^^ n) s t \<and> (\<forall>u. \<not> run_step sz p k ui t u)"
proof (cases "phase s")
  case Uninitialized
  show ?thesis
  proof (cases "init_grid p (empty_grid sz) (source s)")
    case (Inl e)
    then obtain t where "run_step sz p k ui s t" "phase t = Failed e"
      using run_initialize_panic [OF Uninitialized] by blast
    then show ?thesis using run_step_failed by (intro exI [of _ 1]) auto
  next
    case (Inr a)
    then obtain g0 r' where "init_grid p (empty_grid sz) (source s) = Inr (g0, r')" by (cases a) auto
    then obtain s1 where s1: "run_step sz p k ui s s1" "stage (phase s1) = Some (0, g0)"
      using run_initialize [OF Uninitialized] by blast
    obtain t where "(run_step sz p k ui ^^ unat k) s1 t" "stage (phase t) = Some (unat k, (erosion_step sz ^^ unat k) g0)"
      using run_erosions [OF s1(2), where n = "unat k" and sz = sz and p = p and ui = ui] by auto
    then show ?thesis
      using s1(1) run_step_final by (intro exI [of _ "Suc (unat k)"]) (blast intro: relpowp_Suc_I2)
  qed
next
  case (Failed e)
  then show ?thesis using run_step_failed by (intro exI [of _ 0]) auto
next
  case (Initialized g)
  then have st: "stage (phase s) = Some (0, g)" by simp
  obtain t where "(run_step sz p k ui ^^ unat k) s t" "stage (phase t) = Some (unat k, (erosion_step sz ^^ unat k) g)"
    using run_erosions [OF st, where n = "unat k" and sz = sz and p = p and ui = ui] by auto
  then show ?thesis using run_step_final by (intro exI [of _ "unat k"]) auto
next
  case (Eroded i g)
  then have st: "stage (phase s) = Some (i, g)" by simp
  have "i \<le> unat k" using run_reachable_inv [OF assms] Eroded by simp
  then obtain t where "(run_step sz p k ui ^^ (unat k - i)) s t"
      "stage (phase t) = Some (unat k, (erosion_step sz ^^ (unat k - i)) g)"
    using run_erosions [OF st, where n = "unat k - i" and sz = sz and p = p and ui = ui] by auto
  then show ?thesis using run_step_final by (intro exI [of _ "unat k - i"]) auto
qed

theorem run_terminates_witness:
  "run_reachable 2 (F64 0) 1 UI_TILES_STATES rng0 (run_start rng0) \<and>
   (\<exists>n t. n \<le> Suc (unat (1 :: u32)) \<and> (run_step 2 (F64 0) 1 UI_TILES_STATES ^^ n) (run_start rng0) t \<and>
          (\<forall>u. \<not> run_step 2 (F64 0) 1 UI_TILES_STATES t u))"
  using run_terminates [OF run_reachable.start] run_reachable.start by blast

end
