(* ===== verification/Cave_Monotone.thy ===== *)
theory Cave_Monotone
  imports Cave_Generator
begin

text \<open>
  How the generator (\<^verbatim>\<open>src/src/main.rs\<close>, lines 44--89) responds to the
  wall probability. \<open>grid_le g g'\<close> orders grids of the same shape by their
  walls (every wall of \<open>g\<close> is a wall of \<open>g'\<close>). With the same random
  source, \<^verbatim>\<open>Bernoulli::new\<close>'s threshold grows with the probability
  (\<open>bernoulli_new_mono\<close>), so initialisation is monotone (C28); the wall
  count is monotone in the grid and the erosion rule in both of its
  arguments, so one erosion pass is monotone (C27); the erosion loop
  preserves the order, so every grid the generator shows and the grid it
  returns are monotone in the probability, and so is every grid \<^verbatim>\<open>main\<close>
  shows for a larger typed probability (C29, in the root theory). This
  is the sense in which the first line of input is a fill rate: a larger
  probability typed never gives a sparser cave.
\<close>

section \<open>Grids ordered by their walls\<close>

definition grid_le :: "grid \<Rightarrow> grid \<Rightarrow> bool" where
  "grid_le g g' \<longleftrightarrow> list_all2 (list_all2 (\<le>)) g g'"

section \<open>Lemmas\<close>

lemma grid_le_nth:
  assumes "wf_grid sz g" and "wf_grid sz g'"
  shows "grid_le g g' \<longleftrightarrow> (\<forall>y < sz. \<forall>x < sz. g ! y ! x \<longrightarrow> g' ! y ! x)"
  using assms by (auto simp: grid_le_def wf_grid_def list_all2_conv_all_nth list_all_length le_bool_def)

lemma grid_le_map:
  "grid_le (map (\<lambda>y. map (f y) [0..<n]) [0..<m]) (map (\<lambda>y. map (f' y) [0..<n]) [0..<m]) \<longleftrightarrow>
   (\<forall>y < m. \<forall>x < n. f y x \<longrightarrow> f' y x)"
  by (simp add: grid_le_def list_all2_conv_all_nth le_bool_def)

lemma wall_count_mono:
  assumes "wf_grid sz g" and "wf_grid sz g'" and "grid_le g g'"
  shows "wall_count sz g r c \<le> wall_count sz g' r c"
proof -
  have "{q \<in> set (grid_cells sz). adjacent (r, c) q \<and> g ! fst q ! snd q}
        \<subseteq> {q \<in> set (grid_cells sz). adjacent (r, c) q \<and> g' ! fst q ! snd q}"
    using assms grid_le_nth [OF assms(1,2)] by (auto simp: grid_cells_def)
  then show ?thesis unfolding wall_count_card by (rule card_mono [rotated]) simp
qed

text \<open>
  The rule is monotone in the cell and in the count because a wall survives
  from \<open>GRID_NEIGHBROURS_TO_LIVE = 5\<close> walls around it and an open cell needs
  more than \<open>GRID_NEIGHBROURS_TO_BORN = 5\<close>: \<open>LIVE \<le> BORN + 1\<close>.
\<close>

lemma erosion_rule_mono:
  "(a \<longrightarrow> b) \<Longrightarrow> n \<le> m \<Longrightarrow> erosion_rule a n \<Longrightarrow> erosion_rule b m"
  by (auto simp: erosion_rule_def GRID_NEIGHBROURS_TO_LIVE_def GRID_NEIGHBROURS_TO_BORN_def split: if_splits)

lemma new_tile_mono:
  assumes "wf_grid sz g" and "wf_grid sz g'" and "grid_le g g'" and "y < sz" and "x < sz"
  shows "new_tile sz g y x \<longrightarrow> new_tile sz g' y x"
  using erosion_rule_mono [of "g ! y ! x" "g' ! y ! x" "wall_count sz g x y" "wall_count sz g' x y"]
    grid_le_nth [OF assms(1,2)] wall_count_mono [OF assms(1-3)] assms(3-5)
  by (simp add: new_tile_rule)

lemma erosion_step_grid_le:
  assumes "wf_grid sz g" and "wf_grid sz g'" and "grid_le g g'"
  shows "grid_le (erosion_step sz g) (erosion_step sz g')"
  unfolding erosion_step_map [OF assms(1)] erosion_step_map [OF assms(2)] grid_le_map
  using new_tile_mono [OF assms] by blast

lemma funpow_erosion_step_grid_le:
  assumes "wf_grid sz g" and "wf_grid sz g'" and "grid_le g g'"
  shows "grid_le ((erosion_step sz ^^ n) g) ((erosion_step sz ^^ n) g')"
proof (induction n)
  case 0
  then show ?case using assms(3) by simp
next
  case (Suc n)
  then show ?case
    using erosion_step_grid_le funpow_erosion_step_wf [OF assms(1)] funpow_erosion_step_wf [OF assms(2)]
    by simp
qed

lemma bernoulli_new_mono:
  assumes "bernoulli_new (F64 p) = Some P" and "bernoulli_new (F64 q) = Some Q" and "p \<le> q"
  shows "P \<le> Q"
proof (cases "q < 1")
  case False
  then have "Q = ALWAYS_TRUE" using assms(2) by (auto simp: bernoulli_new_def split: if_splits)
  then show ?thesis by (simp add: ALWAYS_TRUE_def max_word_max)
next
  case True
  then have p: "0 \<le> p" "p < 1" using assms(1,3) by (auto simp: bernoulli_new_def split: if_splits)
  then have P: "P = word_of_nat (nat \<lfloor>p * SCALE\<rfloor>)" using assms(1) by (simp add: bernoulli_new_def)
  have q: "0 \<le> q" using p assms(3) by simp
  with True have Q: "Q = word_of_nat (nat \<lfloor>q * SCALE\<rfloor>)" using assms(2) by (simp add: bernoulli_new_def)
  have le: "nat \<lfloor>p * SCALE\<rfloor> \<le> nat \<lfloor>q * SCALE\<rfloor>"
    using assms(3) by (intro nat_mono floor_mono mult_right_mono) (simp_all add: SCALE_def)
  have "q * SCALE < 2 ^ 64" using True by (simp add: SCALE_def)
  then have "\<lfloor>q * SCALE\<rfloor> < 2 ^ 64" by (simp add: floor_less_iff)
  then have lt: "nat \<lfloor>q * SCALE\<rfloor> < 2 ^ 64"
    by (cases "0 \<le> \<lfloor>q * SCALE\<rfloor>") (simp_all add: nat_less_iff)
  show ?thesis unfolding P Q word_le_nat_alt unat_of_nat using le lt by simp
qed

lemma init_grid_grid_le:
  assumes "init_grid (F64 p) (empty_grid sz) r = Inr (g1, r1)"
    and "init_grid (F64 q) (empty_grid sz) r = Inr (g2, r2)" and "p \<le> q"
  shows "grid_le g1 g2"
proof (cases "sz = 0")
  case True
  then show ?thesis using assms(1,2) by (simp add: empty_grid_def grid_le_def)
next
  case False
  then have ok: "probability_ok (F64 p)" "probability_ok (F64 q)"
    using assms(1,2) init_grid_invalid [of sz] by fastforce+
  obtain P Q where P: "bernoulli_new (F64 p) = Some P" and Q: "bernoulli_new (F64 q) = Some Q"
    using bernoulli_new_valid [OF ok(1)] bernoulli_new_valid [OF ok(2)] by blast
  have PQ: "P \<le> Q" by (rule bernoulli_new_mono [OF P Q assms(3)])
  have wf: "wf_grid sz g1" "wf_grid sz g2" using assms(1,2) by (simp_all add: init_grid_empty_wf)
  have rows: "list_all (\<lambda>line. length line = sz) (empty_grid sz)"
    by (simp add: empty_grid_def list_all_iff)
  show ?thesis
  proof (cases "Q = ALWAYS_TRUE")
    case True
    then have "g2 = map (map (\<lambda>_. True)) (empty_grid sz)"
      using assms(2) init_grid_always [OF Q [unfolded True]] by simp
    then have "\<forall>y < sz. \<forall>x < sz. g2 ! y ! x" by (simp add: empty_grid_def)
    then show ?thesis by (simp add: grid_le_nth [OF wf])
  next
    case False
    then have "P \<noteq> ALWAYS_TRUE" using PQ max_word_max [of Q] antisym [of Q "- 1"]
      by (auto simp: ALWAYS_TRUE_def)
    then have "g1 = map (\<lambda>y. map (\<lambda>x. samples r (cursor r + y * sz + x) < P \<or> empty_grid sz ! y ! x) [0..<sz]) [0..<sz]"
      using assms(1) init_grid_draw [OF P _ rows] by (simp add: empty_grid_def)
    moreover have "g2 = map (\<lambda>y. map (\<lambda>x. samples r (cursor r + y * sz + x) < Q \<or> empty_grid sz ! y ! x) [0..<sz]) [0..<sz]"
      using assms(2) init_grid_draw [OF Q False rows] by (simp add: empty_grid_def)
    ultimately show ?thesis using PQ by (auto simp: grid_le_map intro: less_le_trans)
  qed
qed

lemma generator_inits:
  assumes "generator sz p k ui r = (out, Inr g)"
  obtains g0 r' where "init_grid p (empty_grid sz) r = Inr (g0, r')"
  using assms by (cases "init_grid p (empty_grid sz) r") (auto simp: generator_def)

lemma generator_Inr:
  assumes "probability_ok p"
  obtains out g where "generator sz p k ui r = (out, Inr g)"
proof -
  obtain g0 r' where "init_grid p (empty_grid sz) r = Inr (g0, r')"
    using init_grid_wf [OF assms] by blast
  with that show ?thesis by (simp add: generator_ok)
qed

lemma generator_mono:
  assumes "generator sz (F64 p) k ui r = (out1, Inr g1)"
    and "generator sz (F64 q) k ui r = (out2, Inr g2)" and "p \<le> q"
  shows "list_all2 grid_le (shown_grids out1) (shown_grids out2) \<and> grid_le g1 g2"
proof -
  obtain a1 r1 where a1: "init_grid (F64 p) (empty_grid sz) r = Inr (a1, r1)"
    using assms(1) by (rule generator_inits)
  obtain a2 r2 where a2: "init_grid (F64 q) (empty_grid sz) r = Inr (a2, r2)"
    using assms(2) by (rule generator_inits)
  have wf: "wf_grid sz a1" "wf_grid sz a2" using a1 a2 by (simp_all add: init_grid_empty_wf)
  have le: "grid_le a1 a2" by (rule init_grid_grid_le [OF a1 a2 assms(3)])
  have o1: "out1 = generator_header ui # Line ''- First random generation: '' # Show_grid a1 #
              snd (erosion_loop sz 1 (unat k) a1)" "g1 = fst (erosion_loop sz 1 (unat k) a1)"
    using assms(1) generator_ok [OF a1, of k ui] by simp_all
  have o2: "out2 = generator_header ui # Line ''- First random generation: '' # Show_grid a2 #
              snd (erosion_loop sz 1 (unat k) a2)" "g2 = fst (erosion_loop sz 1 (unat k) a2)"
    using assms(2) generator_ok [OF a2, of k ui] by simp_all
  show ?thesis
    unfolding o1 o2 using le
    by (simp add: erosion_loop_shown erosion_loop_grid list_all2_map1 list_all2_map2 list_all2_same
        funpow_erosion_step_grid_le [OF wf le] del: funpow.simps)
qed

section \<open>Properties\<close>

text \<open>
  C27. One erosion pass is monotone: if every wall of the well-formed grid
  \<open>g\<close> is a wall of \<open>g'\<close>, every wall of the pass on \<open>g\<close> is a wall of the
  pass on \<open>g'\<close>. This holds because \<open>GRID_NEIGHBROURS_TO_LIVE \<le>
  GRID_NEIGHBROURS_TO_BORN + 1\<close>: a wall never needs more walls around it to
  survive than an open cell needs to become one.
\<close>

theorem erosion_step_mono:
  assumes "wf_grid sz g" and "wf_grid sz g'"
    and "\<forall>y < sz. \<forall>x < sz. g ! y ! x \<longrightarrow> g' ! y ! x"
  shows "\<forall>y < sz. \<forall>x < sz. erosion_step sz g ! y ! x \<longrightarrow> erosion_step sz g' ! y ! x"
  using erosion_step_grid_le [OF assms(1,2)] assms(3)
  unfolding grid_le_nth [OF assms(1,2)] grid_le_nth [OF erosion_step_wf erosion_step_wf]
  by blast

theorem erosion_step_mono_witness:
  "wf_grid 3 [[True, True, True], [True, True, True], [True, True, False]] \<and>
   wf_grid 3 (full_grid 3) \<and>
   erosion_step 3 [[True, True, True], [True, True, True], [True, True, False]] ! 1 ! 1 \<and>
   erosion_step 3 (full_grid 3) ! 1 ! 1"
proof -
  have g: "wf_grid 3 [[True, True, True], [True, True, True], [True, True, False]]"
    by (simp add: wf_grid_def)
  have f: "wf_grid 3 (full_grid 3)" by (simp add: wf_grid_def full_grid_def list_all_iff)
  have le: "\<forall>y < 3. \<forall>x < 3. [[True, True, True], [True, True, True], [True, True, False]] ! y ! x
              \<longrightarrow> full_grid 3 ! y ! x"
    by (simp add: full_grid_def)
  have c: "erosion_step 3 [[True, True, True], [True, True, True], [True, True, False]] ! 1 ! 1"
    by code_simp
  show ?thesis using erosion_step_mono [OF g f le] g f c by simp
qed

text \<open>
  C28. Initialisation is monotone in the wall probability: from the same
  random source, every cell that \<^verbatim>\<open>random_bool(p)\<close> makes a wall is also a
  wall under any larger accepted probability \<open>q\<close>, because
  \<^verbatim>\<open>Bernoulli::new\<close>'s threshold \<open>\<lfloor>p * 2^64\<rfloor>\<close> grows with \<open>p\<close> and
  \<open>q = 1\<close> makes every cell a wall.
\<close>

theorem init_grid_mono:
  assumes "init_grid (F64 p) (empty_grid sz) r = Inr (g1, r1)"
    and "init_grid (F64 q) (empty_grid sz) r = Inr (g2, r2)"
    and "p \<le> q" and "y < sz" and "x < sz"
  shows "g1 ! y ! x \<longrightarrow> g2 ! y ! x"
  using init_grid_grid_le [OF assms(1-3)] assms(4,5)
    grid_le_nth [OF init_grid_empty_wf [OF assms(1)] init_grid_empty_wf [OF assms(2)]]
  by blast

theorem init_grid_mono_witness:
  "init_grid (F64 (1 / 2)) (empty_grid 3) rng0 = Inr (full_grid 3, rng0\<lparr>cursor := 9\<rparr>) \<and>
   init_grid (F64 1) (empty_grid 3) rng0 = Inr (full_grid 3, rng0) \<and> full_grid 3 ! 1 ! 1"
proof -
  have P: "bernoulli_new (F64 (1 / 2)) = Some 9223372036854775808"
    by (simp add: bernoulli_new_def SCALE_def)
  have rows: "list_all (\<lambda>line. length line = 3) (empty_grid 3)"
    by (simp add: empty_grid_def list_all_iff)
  have a: "init_grid (F64 (1 / 2)) (empty_grid 3) rng0 = Inr (full_grid 3, rng0\<lparr>cursor := 9\<rparr>)"
    using init_grid_draw [OF P _ rows, of rng0]
    by (simp add: ALWAYS_TRUE_def rng0_def full_grid_def empty_grid_def upt_rec numeral_3_eq_3)
  have b: "init_grid (F64 1) (empty_grid 3) rng0 = Inr (full_grid 3, rng0)"
    using init_grid_always [OF bernoulli_new_1, of "empty_grid 3" rng0]
    by (simp add: empty_grid_def full_grid_def)
  have "full_grid 3 ! 1 ! 1" by (simp add: full_grid_def)
  then show ?thesis using init_grid_mono [OF a b, of 1 1] a b by simp
qed

end
