(* ===== verification/Spec2Isabelle.thy ===== *)
theory Spec2Isabelle
  imports Cave_Main Cave_Run Cave_Monotone
begin

text \<open>
  \<^bold>\<open>Verification of the linear cave generator\<close> (\<^verbatim>\<open>src/src/main.rs\<close>).

  \<^bold>\<open>The program.\<close> One Rust file. \<^verbatim>\<open>main\<close> (lines 129--173) reads a wall
  probability and an erosion count from the console, falling back to the
  defaults \<^verbatim>\<open>DEFAULT_FILL = 0.7\<close> and \<^verbatim>\<open>DEFAULT_EROSION_ITERATIONS = 6\<close>, and
  calls \<^verbatim>\<open>generator\<close> (lines 44--89). The generator fills a
  \<^verbatim>\<open>GRID_SIZE\<close> by \<^verbatim>\<open>GRID_SIZE\<close> boolean grid (\<open>True\<close> a wall) with one
  \<^verbatim>\<open>rng.random_bool\<close> trial per cell, prints it with \<^verbatim>\<open>print_grid\<close> (lines
  30--42), then runs \<^verbatim>\<open>erosion_iteration\<close> erosion passes, each building a
  fresh grid from the previous one with the neighbour counter \<^verbatim>\<open>neighbours\<close>
  (lines 91--126) and printing it; \<^verbatim>\<open>main\<close> then waits for a last line.

  \<^bold>\<open>Theories.\<close>
  \<^item> \<open>Cave_Prelude\<close>: the types (\<open>grid\<close> = \<open>bool list list\<close> read as
    \<open>g ! y ! x\<close> for \<^verbatim>\<open>grid[y][x]\<close>; \<open>u8\<close>, \<open>u32\<close>, \<open>u64\<close> as words;
    \<open>f64\<close>), the cell write \<open>grid_set\<close>, the \<open>grid_simps\<close> collection, and
    shared lemmas on folds over index ranges, on the 8-bit increment and on
    deterministic step relations.
  \<^item> \<open>Cave_Float\<close>: the decimal-to-double conversion of float literals and of
    \<^verbatim>\<open>str::parse::<f64>\<close>: \<open>f64_of_ratio\<close> rounds \<open>n / d\<close> to the nearest
    binary64 value, ties to even, with subnormals and overflow to infinity;
    \<open>f64_of_decimal\<close> applies it to \<open>m * 10^e\<close>.
  \<^item> \<open>Cave_Grid\<close>: the constants of lines 7--16, \<open>empty_grid\<close> for
    \<^verbatim>\<open>[[false; GRID_SIZE]; GRID_SIZE]\<close>, the shape invariant \<open>wf_grid\<close> that
    the Rust array type guarantees, and the renderer: \<open>ui_tile_state\<close>,
    \<open>UI_TILES_STATES\<close> (the glyphs as UTF-8 bytes), \<open>print_tile\<close>,
    \<open>print_grid\<close> returning the printed text, with its decoder
    \<open>decode_grid\<close>.
  \<^item> \<open>Cave_Neighbours\<close>: \<open>relatives\<close>, the bounds check \<open>out_of_grid\<close>, one
    loop iteration \<open>neighbours_body\<close> and \<open>neighbours\<close> as a fold with a
    \<open>u8\<close> counter; the specification \<open>wall_count\<close> (walls among the in-grid
    cells adjacent to a cell) and the proof that the counter computes it exactly.
  \<^item> \<open>Cave_Erosion\<close>: one pass of the erosion loop (lines 67--80):
    \<open>new_tile\<close> (the three-way rule writing \<^verbatim>\<open>grid_updated[y][x]\<close>),
    \<open>erosion_row\<close> and \<open>erosion_step\<close> (the nested loops as folds), the map
    form \<open>erosion_step_ref\<close>, and the design's rule \<open>erosion_rule\<close> and step
    \<open>spec_step\<close>.
  \<^item> \<open>Cave_Generator\<close>: the random source (\<open>rng\<close>, \<open>random_bool\<close> and the
    \<^verbatim>\<open>rand\<close> crate's Bernoulli check \<open>bernoulli_new\<close>), the initialisation
    loops \<open>init_line\<close>, \<open>init_grid\<close>, the erosion loop \<open>erosion_loop\<close> over
    \<^verbatim>\<open>1..=erosion_iteration\<close> with its caption \<open>erosion_line\<close>, and
    \<open>generator\<close> with its header line \<open>generator_header\<close>, which returns the
    output events it printed (\<open>Line\<close> for a \<^verbatim>\<open>println!\<close>, \<open>Show_grid\<close> for
    a call of the renderer) and either the final grid or a panic; \<open>stdout\<close>
    is the text of the events and \<open>newlines\<close> counts its lines.
  \<^item> \<open>Cave_Run\<close>: the generator's run as the design's state machine
    (\<open>run_phase\<close>: Uninitialized, Initialized, Eroded \<open>k\<close>, and Failed for
    a panic; \<open>run_state\<close> adds the random source and what has been printed).
    \<open>run_step\<close> is an \<open>inductive\<close> relation with one rule per transition of
    the code (the random fill, its panic, one erosion pass);
    \<open>run_reachable\<close> gives the states a run reaches; \<open>phase_inv\<close> is the
    invariant.
  \<^item> \<open>Cave_Monotone\<close>: the response of the generator to the wall
    probability. \<open>grid_le\<close> orders grids by their walls; the threshold of
    \<open>bernoulli_new\<close>, the wall count and the erosion rule are monotone, so
    initialisation, each erosion pass and the whole generator are.
  \<^item> \<open>Cave_Main\<close>: \<^verbatim>\<open>main\<close> (lines 129--173). The console is a list of
    input lines (\<open>stdin_line\<close>, \<open>Input_error\<close> for a failed
    \<^verbatim>\<open>read_line\<close>), \<open>read_line\<close> appends one line to the buffer, \<open>trim\<close>
    strips ASCII whitespace, \<open>parse_u32\<close> (digits with the overflow check of
    \<^verbatim>\<open>str::parse::<u32>\<close>) and \<open>parse_f64\<close> (\<open>split_sign\<close>, \<^verbatim>\<open>inf\<close>,
    \<^verbatim>\<open>nan\<close>, \<open>parse_number\<close> and \<open>parse_exp\<close> for the decimal, rounded by
    \<open>f64_of_decimal\<close>) parse the answers, \<open>read_config\<close> is the prompts
    with their fallbacks to the defaults, and \<open>main\<close> runs the generator on
    them and waits for the final line.

  \<^bold>\<open>How the model follows the code.\<close> The grid size is a parameter \<open>sz\<close>;
  the program is the instance \<open>sz = GRID_SIZE = 50\<close>. Loops are folds or
  structural recursion over the same ranges in the same order; state (the grid
  being written, the random source's cursor, the unread console lines) is
  passed explicitly. The \<^verbatim>\<open>u8\<close> neighbour counter and the thresholds are
  \<open>8 word\<close> values and are compared as words, as in the code; the \<^verbatim>\<open>u32\<close>
  iteration count is a \<open>32 word\<close>. The \<^verbatim>\<open>i32\<close> absolute coordinates are
  \<open>int\<close>: the casts from \<^verbatim>\<open>usize\<close> are exact because coordinates are below
  \<open>GRID_SIZE\<close>. An \<^verbatim>\<open>f64\<close> is the datatype \<open>f64\<close> (the real value of a
  finite double, the two infinities, NaN); every double the program makes
  comes from \<open>f64_of_decimal\<close>. A panic is the value \<open>Inl\<close> of a sum. Every
  loop runs over a finite range or consumes its input, so no fuel is needed
  and every definition is total; the run relation of \<open>Cave_Run\<close> is proved
  to terminate.

  \<^bold>\<open>What is proved.\<close>
  \<^item> Neighbour counting (C2, C8): the counter equals the number of adjacent
    in-grid walls, so the \<open>u8\<close> increment never wraps (C2), and it is at
    most 3 at corners whatever the grid holds (C8).
  \<^item> Erosion (C1, C3, C4, C5, C7): the loops compute every cell from the
    unmodified previous grid (synchronous update, C5); each cell follows the
    rule with the count of the transposed cell (C1), since \<^verbatim>\<open>neighbours\<close>
    indexes \<^verbatim>\<open>grid[x][y]\<close>; the pass is the design's step on grids symmetric
    about the diagonal (C3, a refinement) and differs from it on some
    50 by 50 grid (C4); on an all-wall grid exactly the corners erode (C7).
  \<^item> The generator (C6, C9--C13): for a probability in \<open>[0, 1]\<close> it returns
    the initial grid after \<open>erosion_iteration\<close> passes (C10), having
    rendered exactly \<open>erosion_iteration + 1\<close> grids in order (C9);
    initialisation is one fresh sample per cell in row-major order (C12), all
    open for probability 0 whatever the count (C6) and all wall for
    probability 1 (C13); a probability outside \<open>[0, 1]\<close> panics before any
    grid is rendered (C11).
  \<^item> The run state machine (C19--C22): by rule induction over the reachable
    states, after every transition the renderer has seen the resulting grid
    and exactly one grid per stage (C19), and a failed run has rejected the
    probability and shown nothing (C21, safety); the machine is deterministic
    and its only final state carries the output and result of
    \<open>generator\<close> (C20, a refinement); every run stops within
    \<open>erosion_iteration + 1\<close> steps (C22).
  \<^item> The renderer (C23): \<open>decode_grid\<close> recovers every grid from its printed
    text, so the output determines the grid.
  \<^item> Configuration and \<^verbatim>\<open>main\<close> (C14--C18, C24--C26): an iteration count
    typed as its decimal digits with any ASCII white space around it reaches
    the generator exactly when it fits in \<^verbatim>\<open>u32\<close> (C14, a round trip
    through \<open>show_nat\<close> and \<open>parse_u32\<close>) and silently becomes the default
    otherwise (C16); blank answers and end of input select the defaults (C15);
    an answer that parses to a value outside \<open>[0, 1]\<close> is accepted and makes
    the program panic before rendering any grid (C17); with a valid
    probability and count \<open>k\<close>, \<^verbatim>\<open>main\<close> renders \<open>k + 1\<close> grids and
    returns normally after the closing read (C18), printing exactly
    \<open>8 + (k + 1) * GRID_SIZE + k\<close> lines (C24); an I/O error on a
    configuration read panics before any grid (C25), one on the closing read
    panics after all of them (C26).
  \<^item> Monotonicity in the wall probability (C27--C29): an erosion pass keeps
    the order of two grids by their walls (C27), since a wall survives from
    \<open>GRID_NEIGHBROURS_TO_LIVE = 5\<close> walls around it and an open cell needs
    more than \<open>GRID_NEIGHBROURS_TO_BORN = 5\<close>; from the same random source a
    larger accepted probability makes a superset of walls at initialisation
    (C28) and in every grid the generator shows and returns. C29, the one
    property stated in this theory, carries this through \<^verbatim>\<open>main\<close>: two
    first lines parsed to accepted probabilities \<open>p \<le> q\<close> give, grid by
    grid, ordered output.

  The shape of the grids (\<open>wf_grid\<close>) is used throughout as a lemma
  (\<open>erosion_step_wf\<close>, \<open>init_grid_empty_wf\<close>) but is not a property of its
  own: the Rust array type already guarantees it. The models of the standard
  library (\<open>trim\<close>, \<open>parse_u32\<close>, \<open>parse_f64\<close>, \<open>f64_of_ratio\<close>) carry
  only the lemmas that the properties of the program's own code need.

  \<^bold>\<open>Findings.\<close> The neighbour count is taken around the transposed cell
  (C4); the generator panics for probabilities outside \<open>[0, 1]\<close> where the
  design promises graceful degradation (C11), and \<^verbatim>\<open>main\<close> forwards such
  values (\<^verbatim>\<open>nan\<close>, \<^verbatim>\<open>inf\<close>, \<^verbatim>\<open>1.5\<close>) unchecked (C17); the prompt asks for
  an \<^verbatim>\<open>int > 0\<close> but 0 is accepted (C14); an overflowing count falls back to
  the default without a message (C16); an I/O error at the closing prompt
  turns a complete run into a panic (C26).

  \<^bold>\<open>Not modelled.\<close> Non-ASCII whitespace in \<^verbatim>\<open>str::trim\<close> (only the ASCII
  whitespace characters are stripped); the sign of a zero (\<^verbatim>\<open>-0.0\<close> is the
  real \<open>0\<close>); the statistics of the random generator, whose algorithm is in
  the \<^verbatim>\<open>rand\<close> crate, not in the repository (only its interface: range
  check, always-true case, one \<^verbatim>\<open>u64\<close> sample compared with
  \<open>\<lfloor>p * 2^64\<rfloor>\<close>); failures and buffering of standard output (printing is
  assumed to succeed).

  \<^bold>\<open>Further work.\<close> The erosion pass could be related to a
  transposition of the grid as a whole (the pass on \<open>g\<close> applies the
  design's rule to the count matrix of the transposed grid; C1 states it cell
  by cell), and the renderer's output could be stated row by row (C23 and C24
  give its decoding and its line count).
\<close>

section \<open>Properties across components\<close>

text \<open>
  C29. A larger probability typed on the first console line never gives a
  sparser cave: for two first lines that parse to accepted probabilities
  \<open>p \<le> q\<close>, with the same count line and the same random source, every
  grid \<^verbatim>\<open>main\<close> shows the renderer under \<open>p\<close> has its walls among the walls
  of the corresponding grid under \<open>q\<close>. This composes the configuration
  reader, initialisation and the erosion loop, whatever the closing read does.
\<close>

theorem main_mono:
  assumes "parse_f64 (trim l1) = Some (F64 p)" and "parse_f64 (trim l1') = Some (F64 q)"
    and "0 \<le> p" and "p \<le> q" and "q \<le> 1"
  shows "list_all2 grid_le (shown_grids (fst (main r (Input l1 # Input l2 # rest))))
           (shown_grids (fst (main r (Input l1' # Input l2 # rest))))"
proof -
  define k where "k = (case parse_u32 (trim l2) of Some num \<Rightarrow> num | None \<Rightarrow> DEFAULT_EROSION_ITERATIONS)"
  obtain o1 where c1: "read_config (Input l1 # Input l2 # rest) = (o1, Inr (F64 p, k, rest))"
    and o1: "shown_grids o1 = []"
    using assms(1) by (simp add: read_config_lines k_def)
  obtain o1' where c2: "read_config (Input l1' # Input l2 # rest) = (o1', Inr (F64 q, k, rest))"
    and o1': "shown_grids o1' = []"
    using assms(2) by (simp add: read_config_lines k_def)
  have ok: "probability_ok (F64 p)" "probability_ok (F64 q)"
    using assms(3-5) by (simp_all add: probability_ok_def)
  obtain out1 g1 where g1: "generator GRID_SIZE (F64 p) k UI_TILES_STATES r = (out1, Inr g1)"
    using ok(1) by (rule generator_Inr)
  obtain out2 g2 where g2: "generator GRID_SIZE (F64 q) k UI_TILES_STATES r = (out2, Inr g2)"
    using ok(2) by (rule generator_Inr)
  have "list_all2 grid_le (shown_grids out1) (shown_grids out2)"
    using generator_mono [OF g1 g2 assms(4)] by blast
  then show ?thesis
    by (simp add: main_shown_grids [OF c1] main_shown_grids [OF c2] g1 g2 o1 o1')
qed

theorem main_mono_witness:
  "parse_f64 (trim ''0\<newline>'') = Some (F64 0) \<and> parse_f64 (trim ''1\<newline>'') = Some (F64 1) \<and>
   list_all2 grid_le (shown_grids (fst (main rng0 [Input ''0\<newline>'', Input ''2\<newline>''])))
     (shown_grids (fst (main rng0 [Input ''1\<newline>'', Input ''2\<newline>''])))"
proof -
  have "parse_f64 (trim ''1\<newline>'') = Some (f64_of_decimal False 1 0)"
    by (simp add: trim_def is_whitespace_def parse_f64_simps digits_nat_def is_digit_def digit_value_def)
  also have "f64_of_decimal False 1 0 = F64 1"
    using f64_of_ratio_nat [of 1 False] by (simp add: f64_of_decimal_def)
  finally have one: "parse_f64 (trim ''1\<newline>'') = Some (F64 1)" .
  show ?thesis
    using main_mono [OF parse_line_0 one, of rng0 "''2\<newline>''" "[]"] parse_line_0 one by simp
qed

end
